theory Spec2Isabelle
  imports Main "HOL-Library.AList" "HOL-Library.Sublist"
begin

section \<open>Time and logging\<close>

text \<open>
  A timestamp is what \<^verbatim>\<open>Date.now()\<close> or \<^verbatim>\<open>new Date()\<close> reads: whole milliseconds,
  modelled as an unbounded integer. Every operation that reads the clock takes the
  reading as an argument, one argument per place where the source reads it.
\<close>

type_synonym timestamp = int

datatype level = Debug | Info | Warn | Error

text \<open>A log line: level, message, and the fields that identify what it is about.\<close>

type_synonym log_entry = "level \<times> string \<times> string list"

section \<open>License manager\<close>

text \<open>
  \<^verbatim>\<open>LicenseSchema\<close>: \<^verbatim>\<open>type\<close> is the enum \<^verbatim>\<open>["premium", "enterprise"]\<close>;
  \<^verbatim>\<open>expiresAt\<close> and \<^verbatim>\<open>revokedAt\<close> are optional dates. The \<^verbatim>\<open>metadata\<close> field, which
  no operation reads, is left out.
\<close>

datatype license_type = Premium | Enterprise

record license =
  license_id :: string
  guildId :: string
  ltype :: license_type
  features :: "string list"
  issuedAt :: timestamp
  expiresAt :: "timestamp option"
  revokedAt :: "timestamp option"

text \<open>\<^verbatim>\<open>LicenseManager.licenses\<close>: a \<^verbatim>\<open>Map\<close> from guild id to license.\<close>

type_synonym licenses = "string \<rightharpoonup> license"

record license_validation =
  valid :: bool
  vlicense :: "license option"
  reason :: "string option"

text \<open>
  \<^verbatim>\<open>license.expiresAt && license.expiresAt < new Date()\<close>: a date object is always
  truthy, so the test is: the expiry is set and strictly before the clock reading.
\<close>

definition isExpired :: "license \<Rightarrow> timestamp \<Rightarrow> bool" where
  "isExpired l now = (case expiresAt l of None \<Rightarrow> False | Some e \<Rightarrow> e < now)"

definition isRevoked :: "license \<Rightarrow> bool" where
  "isRevoked l = (case revokedAt l of None \<Rightarrow> False | Some _ \<Rightarrow> True)"

text \<open>
  \<^verbatim>\<open>registerLicense\<close>: the schema holds by typing; a license that is already expired or
  revoked is refused (the error is caught and \<^verbatim>\<open>false\<close> returned), otherwise it is
  stored under its guild id.
\<close>

definition registerLicense :: "licenses \<Rightarrow> timestamp \<Rightarrow> license \<Rightarrow> bool \<times> licenses" where
  "registerLicense ls now l =
     (if isExpired l now then (False, ls)
      else if isRevoked l then (False, ls)
      else (True, ls(guildId l \<mapsto> l)))"

definition revokeLicense :: "licenses \<Rightarrow> timestamp \<Rightarrow> string \<Rightarrow> bool \<times> licenses" where
  "revokeLicense ls now g =
     (case ls g of
        None \<Rightarrow> (False, ls)
      | Some l \<Rightarrow> (True, ls(g \<mapsto> l\<lparr>revokedAt := Some now\<rparr>)))"

definition noLicenseReason :: string where
  "noLicenseReason = ''No license found for this guild''"

definition expiredReason :: string where
  "expiredReason = ''License has expired''"

definition revokedReason :: string where
  "revokedReason = ''License has been revoked''"

definition notIncludedReason :: "string \<Rightarrow> string" where
  "notIncludedReason featureKey =
     ''Feature '' @ [CHR 0x27] @ featureKey @ [CHR 0x27] @ '' is not included in this license''"

definition validateFeatureAccess ::
  "licenses \<Rightarrow> timestamp \<Rightarrow> string \<Rightarrow> string \<Rightarrow> license_validation" where
  "validateFeatureAccess ls now g featureKey =
     (case ls g of
        None \<Rightarrow> \<lparr>valid = False, vlicense = None, reason = Some noLicenseReason\<rparr>
      | Some l \<Rightarrow>
          if isExpired l now then
            \<lparr>valid = False, vlicense = Some l, reason = Some expiredReason\<rparr>
          else if isRevoked l then
            \<lparr>valid = False, vlicense = Some l, reason = Some revokedReason\<rparr>
          else if featureKey \<notin> set (features l) then
            \<lparr>valid = False, vlicense = Some l, reason = Some (notIncludedReason featureKey)\<rparr>
          else \<lparr>valid = True, vlicense = Some l, reason = None\<rparr>)"

text \<open>
  \<^verbatim>\<open>hasPremiumAccess\<close>: no license, no access; otherwise the validation of the empty
  feature key, or the license being of type premium, or of type enterprise.
\<close>

definition hasPremiumAccess :: "licenses \<Rightarrow> timestamp \<Rightarrow> string \<Rightarrow> bool" where
  "hasPremiumAccess ls now g =
     (case ls g of
        None \<Rightarrow> False
      | Some l \<Rightarrow>
          valid (validateFeatureAccess ls now g '''') \<or> ltype l = Premium \<or> ltype l = Enterprise)"

section \<open>Promises\<close>

text \<open>
  How a promise settles: resolved, or rejected with an error message. Promises that never
  settle are outside the model.
\<close>

datatype outcome = Resolved | Rejected string

text \<open>
  How a call of a function of a feature ends. The interfaces type the hooks and handlers
  as returning \<^verbatim>\<open>Promise<void>\<close>, but nothing checks it at run time: the call returns a
  promise (an async function always does, and every failure of its body rejects that
  promise), or it throws before it returns, or it returns a value that is no promise.
  What the function does to the outside world is not modelled; how the call ends may
  depend on the world it runs in, an argument of type \<^typ>\<open>'w\<close>, so the same function may
  fail in one call and succeed in the next.
\<close>

datatype invocation = Returns outcome | Throws string | NoPromise

text \<open>
  \<^verbatim>\<open>await f(...)\<close> inside a \<^verbatim>\<open>try\<close>: a throw of the call and a rejection of the promise
  it returns both end in the \<^verbatim>\<open>catch\<close>; awaiting a value that is no promise succeeds.
\<close>

definition awaited :: "invocation \<Rightarrow> outcome" where
  "awaited r = (case r of Returns p \<Rightarrow> p | Throws e \<Rightarrow> Rejected e | NoPromise \<Rightarrow> Resolved)"

text \<open>
  \<^verbatim>\<open>p.catch(f)\<close> for a handler \<^verbatim>\<open>f\<close> that only logs: the new promise resolves in either
  case, and the log line is written when \<^verbatim>\<open>p\<close> rejected.
\<close>

definition catchLog :: "outcome \<Rightarrow> (string \<Rightarrow> log_entry) \<Rightarrow> outcome \<times> log_entry list" where
  "catchLog p f = (case p of Resolved \<Rightarrow> (Resolved, []) | Rejected e \<Rightarrow> (Resolved, [f e]))"

text \<open>\<^verbatim>\<open>Promise.allSettled\<close> resolves once every promise has settled, whatever the outcomes.\<close>

definition allSettled :: "outcome list \<Rightarrow> outcome" where
  "allSettled ps = Resolved"

section \<open>Feature loader\<close>

text \<open>The fields of \<^verbatim>\<open>FeatureConfig\<close> that the loader's enable and dispatch paths read.\<close>

record feature_config =
  key :: string
  isPremium :: bool

record feature_context =
  ctx_guild :: string
  ctx_config :: "(string \<times> string) list"

type_synonym payload = "string list"

type_synonym 'w event_handler = "feature_context \<Rightarrow> payload \<Rightarrow> 'w \<Rightarrow> invocation"

text \<open>
  A feature object: its config and its own methods by property name, the lifecycle hooks
  (\<^verbatim>\<open>register\<close>, \<^verbatim>\<open>enable\<close>, \<^verbatim>\<open>disable\<close>) and the event handlers it declares
  (\<^verbatim>\<open>memberAdd\<close>, \<^verbatim>\<open>messageCreate\<close>, ...) among them.
\<close>

record 'w feature =
  config :: feature_config
  methods :: "string \<rightharpoonup> 'w event_handler"

text \<open>
  The functions every object inherits from \<^verbatim>\<open>Object.prototype\<close>. Called the way
  \<^verbatim>\<open>handleEvent\<close> calls a handler, none of them yields a promise (they return a string, a
  boolean, an object or nothing, or refuse the call), so the call or the \<^verbatim>\<open>.catch\<close> on its
  result throws a type error; the model has one such error for all of them.
\<close>

definition objectPrototype :: "string list" where
  "objectPrototype =
     [''constructor'', ''__defineGetter__'', ''__defineSetter__'', ''hasOwnProperty'',
      ''__lookupGetter__'', ''__lookupSetter__'', ''isPrototypeOf'', ''propertyIsEnumerable'',
      ''toString'', ''valueOf'', ''toLocaleString'']"

text \<open>
  \<^verbatim>\<open>(instance.feature as any)[eventName]\<close> with \<^verbatim>\<open>typeof eventHandler === "function"\<close>:
  the feature's own method of that name, or else the inherited function of that name.
\<close>

definition eventHandler :: "'w feature \<Rightarrow> string \<Rightarrow> 'w event_handler option" where
  "eventHandler f eventName =
     (case methods f eventName of
        Some h \<Rightarrow> Some h
      | None \<Rightarrow>
          if eventName \<in> set objectPrototype then Some (\<lambda>ctx args w. NoPromise) else None)"

text \<open>
  A lifecycle hook as \<^verbatim>\<open>enableFeature\<close> and \<^verbatim>\<open>disableFeature\<close> call it:
  \<^verbatim>\<open>await instance.feature.enable(instance.context)\<close> inside their \<^verbatim>\<open>try\<close>. A feature
  without the method makes the call throw a type error.
\<close>

definition lifecycle :: "'w feature \<Rightarrow> string \<Rightarrow> feature_context \<Rightarrow> 'w \<Rightarrow> outcome" where
  "lifecycle f hook ctx w =
     (case eventHandler f hook of
        None \<Rightarrow> Rejected (''instance.feature.'' @ hook @ '' is not a function'')
      | Some h \<Rightarrow> awaited (h ctx [] w))"

definition enable :: "'w feature \<Rightarrow> feature_context \<Rightarrow> 'w \<Rightarrow> outcome" where
  "enable f = lifecycle f ''enable''"

definition disable :: "'w feature \<Rightarrow> feature_context \<Rightarrow> 'w \<Rightarrow> outcome" where
  "disable f = lifecycle f ''disable''"

record 'w feature_instance =
  feature :: "'w feature"
  icontext :: feature_context
  enabled :: bool
  loadedAt :: timestamp

text \<open>
  One invocation of a hook or handler: guild, feature key, the function's name and how
  the call ended for one who awaits it. The list of invocations is kept beside the
  loader's own state to state how often and in which order the functions run.
\<close>

type_synonym hook_call = "string \<times> string \<times> string \<times> outcome"

text \<open>
  \<^verbatim>\<open>FeatureLoader.instances\<close>: guild id to (feature key to instance). The inner \<^verbatim>\<open>Map\<close>
  is an association list, since \<^verbatim>\<open>handleEvent\<close> iterates it in insertion order;
  \<^const>\<open>AList.update\<close> is \<^verbatim>\<open>Map.set\<close> (in place for a key that exists, at the end
  otherwise).
\<close>

record 'w loader =
  instances :: "string \<rightharpoonup> (string \<times> 'w feature_instance) list"
  calls :: "hook_call list"
  flog :: "log_entry list"

definition enableFailed :: "'w loader \<Rightarrow> string \<Rightarrow> string \<Rightarrow> string \<Rightarrow> 'w loader" where
  "enableFailed s g featureKey e =
     s\<lparr>flog := flog s @ [(Error, ''Failed to enable feature'', [e, featureKey, g])]\<rparr>"

definition reasonText :: "string option \<Rightarrow> string" where
  "reasonText r = (case r of None \<Rightarrow> ''undefined'' | Some t \<Rightarrow> t)"

text \<open>
  \<^verbatim>\<open>enableFeature\<close>. Every \<^verbatim>\<open>throw\<close> of the body, and a rejection of the awaited
  enable hook, lands in the \<^verbatim>\<open>catch\<close>, which logs and returns \<^verbatim>\<open>false\<close>.
\<close>

definition enableFeature ::
  "licenses \<Rightarrow> timestamp \<Rightarrow> 'w \<Rightarrow> 'w loader \<Rightarrow> string \<Rightarrow> string \<Rightarrow> bool \<times> 'w loader" where
  "enableFeature ls now w s g featureKey =
     (case instances s g of
        None \<Rightarrow> (False, enableFailed s g featureKey (''Guild '' @ g @ '' not found''))
      | Some guildInstances \<Rightarrow>
          (case map_of guildInstances featureKey of
             None \<Rightarrow>
               (False, enableFailed s g featureKey
                  (''Feature '' @ featureKey @ '' not found for guild '' @ g))
           | Some instance \<Rightarrow>
               if enabled instance then (True, s)
               else if isPremium (config (feature instance)) \<and>
                       \<not> valid (validateFeatureAccess ls now g featureKey) then
                 (False, enableFailed s g featureKey
                    (''Premium feature requires valid license: '' @
                       reasonText (reason (validateFeatureAccess ls now g featureKey))))
               else
                 (case enable (feature instance) (icontext instance) w of
                    Rejected e \<Rightarrow>
                      (False, enableFailed
                         (s\<lparr>calls := calls s @ [(g, featureKey, ''enable'', Rejected e)]\<rparr>)
                         g featureKey e)
                  | Resolved \<Rightarrow>
                      (True,
                       s\<lparr>instances := (instances s)(g \<mapsto>
                            AList.update featureKey (instance\<lparr>enabled := True\<rparr>) guildInstances),
                         calls := calls s @ [(g, featureKey, ''enable'', Resolved)],
                         flog := flog s @
                           [(Info, ''Feature enabled for guild'', [featureKey, g])]\<rparr>))))"

definition disableFeature :: "'w \<Rightarrow> 'w loader \<Rightarrow> string \<Rightarrow> string \<Rightarrow> bool \<times> 'w loader" where
  "disableFeature w s g featureKey =
     (case instances s g of
        None \<Rightarrow> (False, s)
      | Some guildInstances \<Rightarrow>
          (case map_of guildInstances featureKey of
             None \<Rightarrow> (True, s)
           | Some instance \<Rightarrow>
               if \<not> enabled instance then (True, s)
               else
                 (case disable (feature instance) (icontext instance) w of
                    Rejected e \<Rightarrow>
                      (False,
                       s\<lparr>calls := calls s @ [(g, featureKey, ''disable'', Rejected e)],
                         flog := flog s @
                           [(Error, ''Failed to disable feature'', [e, featureKey, g])]\<rparr>)
                  | Resolved \<Rightarrow>
                      (True,
                       s\<lparr>instances := (instances s)(g \<mapsto>
                            AList.update featureKey (instance\<lparr>enabled := False\<rparr>) guildInstances),
                         calls := calls s @ [(g, featureKey, ''disable'', Resolved)],
                         flog := flog s @
                           [(Info, ''Feature disabled for guild'', [featureKey, g])]\<rparr>))))"

text \<open>The type error of calling \<^verbatim>\<open>.catch\<close> on a value that is no promise.\<close>

definition notAPromise :: string where
  "notAPromise = ''TypeError: eventHandler.call(...).catch is not a function''"

text \<open>
  The loop of \<^verbatim>\<open>handleEvent\<close> over the guild's instances. Nothing in the loop catches:
  when a handler throws before it returns, or returns no promise so that \<^verbatim>\<open>.catch\<close> throws,
  the error leaves the loop at once and the instances that follow are not visited. The
  loop yields that error if there is one, the promises it pushed (each handler's promise
  with its \<^verbatim>\<open>.catch\<close> attached), the invocations made, and the lines logged by the
  \<^verbatim>\<open>.catch\<close> callbacks, which run for every promise pushed, also when the loop is left
  later.
\<close>

fun eventLoop ::
  "'w \<Rightarrow> string \<Rightarrow> string \<Rightarrow> payload \<Rightarrow> (string \<times> 'w feature_instance) list \<Rightarrow>
     string option \<times> outcome list \<times> hook_call list \<times> log_entry list" where
  "eventLoop w g eventName args [] = (None, [], [], [])"
| "eventLoop w g eventName args ((featureKey, instance) # rest) =
     (if \<not> enabled instance then eventLoop w g eventName args rest
      else
        (case eventHandler (feature instance) eventName of
           None \<Rightarrow> eventLoop w g eventName args rest
         | Some h \<Rightarrow>
             (case h (icontext instance) args w of
                Throws e \<Rightarrow> (Some e, [], [(g, featureKey, eventName, Rejected e)], [])
              | NoPromise \<Rightarrow>
                  (Some notAPromise, [], [(g, featureKey, eventName, Resolved)], [])
              | Returns settled \<Rightarrow>
                  (let (p, logged) = catchLog settled
                         (\<lambda>e. (Error, ''Feature event handler failed'',
                            [e, featureKey, g, eventName]));
                       (thrown, ps, cs, ls) = eventLoop w g eventName args rest
                   in (thrown, p # ps, (g, featureKey, eventName, settled) # cs,
                       logged @ ls)))))"

text \<open>
  \<^verbatim>\<open>handleEvent\<close>: the outcome of the promise it returns, and the loader afterwards. An
  error that leaves the loop rejects the promise; otherwise \<^verbatim>\<open>Promise.allSettled\<close> is
  awaited.
\<close>

definition handleEvent ::
  "'w \<Rightarrow> 'w loader \<Rightarrow> string \<Rightarrow> string \<Rightarrow> payload \<Rightarrow> outcome \<times> 'w loader" where
  "handleEvent w s g eventName args =
     (case instances s g of
        None \<Rightarrow> (Resolved, s)
      | Some guildInstances \<Rightarrow>
          (let (thrown, promises, cs, ls) = eventLoop w g eventName args guildInstances
           in ((case thrown of Some e \<Rightarrow> Rejected e | None \<Rightarrow> allSettled promises),
               s\<lparr>calls := calls s @ cs, flog := flog s @ ls\<rparr>)))"

text \<open>\<^verbatim>\<open>getFeatureInstance\<close>: \<^verbatim>\<open>this.instances.get(guildId)?.get(featureKey)\<close>.\<close>

definition getFeatureInstance :: "'w loader \<Rightarrow> string \<Rightarrow> string \<Rightarrow> 'w feature_instance option" where
  "getFeatureInstance s g featureKey =
     (case instances s g of None \<Rightarrow> None | Some guildInstances \<Rightarrow> map_of guildInstances featureKey)"

section \<open>Command arguments\<close>

text \<open>\<^verbatim>\<open>CommandArgument\<close> of the parser. A choice value is a string or a number.\<close>

datatype arg_type =
  TString | TInteger | TBoolean | TUser | TChannel | TRole | TMentionable | TNumber | TAttachment

datatype choice_value = StrValue string | NumValue int

record choice =
  choiceName :: string
  choiceValue :: choice_value

record command_argument =
  argName :: string
  argDescription :: string
  argType :: arg_type
  required :: "bool option"
  choices :: "choice list option"
  minValue :: "int option"
  maxValue :: "int option"
  minLength :: "nat option"
  maxLength :: "nat option"
  autocomplete :: "bool option"

datatype arg_value = StringArg string | NumberArg int | BooleanArg bool | ReferenceArg string

type_synonym parsed_args = "(string \<times> arg_value) list"

section \<open>Command registry\<close>

text \<open>
  \<^verbatim>\<open>CommandMetadata\<close>, the output type of \<^verbatim>\<open>CommandMetadataSchema\<close>. The cooldown is in
  whole seconds, as in every command the repository registers (0, 5, 30, 60): with
  whole seconds and whole milliseconds the arithmetic of the source's numbers is exact,
  and they are modelled as integers. The instance flag of the feature loader already
  has the name \<open>enabled\<close>, so the command's flag is \<open>cmdEnabled\<close>.
\<close>

record command_metadata =
  name :: string
  description :: string
  category :: "string option"
  permissions :: "string list option"
  roles :: "string list option"
  cooldown :: int
  guildOnly :: bool
  ownerOnly :: bool
  premiumOnly :: bool
  cmdEnabled :: bool
  aliases :: "string list option"
  arguments :: "command_argument list option"

text \<open>
  What \<^verbatim>\<open>CommandMetadataSchema.parse\<close> checks beyond the field types: the name has 1 to
  32 characters, the description 1 to 100, the cooldown is not negative.
\<close>

definition CommandMetadataSchema :: "command_metadata \<Rightarrow> bool" where
  "CommandMetadataSchema md =
     (1 \<le> length (name md) \<and> length (name md) \<le> 32 \<and>
      1 \<le> length (description md) \<and> length (description md) \<le> 100 \<and>
      0 \<le> cooldown md)"

text \<open>
  The invoking guild member: the names in its permission set and the ids in its role
  cache, each absent when the transport did not deliver it.
\<close>

record member =
  memberPermissions :: "string list option"
  memberRoles :: "string list option"

text \<open>
  A chat-input interaction as the executor reads it: command name, invoking user's id,
  the guild it came from (none for a direct message), the invoking member and the raw
  options.
\<close>

record interaction =
  commandName :: string
  user :: string
  guild :: "string option"
  imember :: "member option"
  options :: "(string \<times> arg_value) list"

text \<open>
  \<^verbatim>\<open>CommandContext\<close>. Its closures \<^verbatim>\<open>hasPermission\<close> and \<^verbatim>\<open>hasRole\<close> are functions of
  the context below; \<^verbatim>\<open>hasFeatureAccess\<close>, which no check of the executor calls, the
  client and the logger are left out. \<open>ctxArgs\<close> is the \<^verbatim>\<open>args\<close> the executor adds.
\<close>

record command_context =
  ctxInteraction :: interaction
  ctxGuild :: "string option"
  ctxUser :: string
  isOwner :: bool
  ctxMember :: "member option"
  ctxPremium :: bool
  ctxArgs :: parsed_args

text \<open>
  The slash-command builder of the transport library, reduced to what \<^verbatim>\<open>register\<close>
  passes to it: name, description, and the (name, description, required) of each
  string option.
\<close>

record slash_builder =
  builderName :: string
  builderDescription :: string
  builderOptions :: "(string \<times> string \<times> bool) list"

record suggestion =
  suggestionName :: string
  suggestionValue :: string

type_synonym 'w supplier = "string \<Rightarrow> string \<Rightarrow> 'w \<Rightarrow> string + suggestion list"

record 'w command_handler =
  metadata :: command_metadata
  execute :: "command_context \<Rightarrow> 'w \<Rightarrow> outcome"
  builder :: "slash_builder option"
  autocompleteOptions :: "'w supplier option"

text \<open>
  \<^verbatim>\<open>CommandRegistry\<close>: commands by name, the alias index (\<^verbatim>\<open>aliases\<close> in the source:
  alias to command name), and the cooldowns (command to user to expiry).
\<close>

record 'w registry =
  commands :: "string \<rightharpoonup> 'w command_handler"
  aliasIndex :: "string \<rightharpoonup> string"
  cooldowns :: "string \<rightharpoonup> (string \<rightharpoonup> timestamp)"
  rlog :: "log_entry list"

text \<open>The loop over the declared aliases: an alias that is already indexed is skipped.\<close>

fun registerAliases :: "string \<Rightarrow> string list \<Rightarrow> 'w registry \<Rightarrow> 'w registry" where
  "registerAliases nm [] reg = reg"
| "registerAliases nm (alias # rest) reg =
     (case aliasIndex reg alias of
        Some existingCommand \<Rightarrow>
          registerAliases nm rest
            (reg\<lparr>rlog := rlog reg @ [(Warn, ''Alias conflict, skipping'', [alias, existingCommand])]\<rparr>)
      | None \<Rightarrow>
          registerAliases nm rest
            (reg\<lparr>aliasIndex := (aliasIndex reg)(alias \<mapsto> nm),
                 rlog := rlog reg @ [(Debug, ''Alias registered'', [alias, nm])]\<rparr>))"

text \<open>
  \<^verbatim>\<open>register\<close>. The builder of the transport library is the parameter \<open>newBuilder\<close>:
  it yields the builder made from the metadata, or nothing when the library throws on
  the name, the description or an option. Any throw is caught: logged, \<^verbatim>\<open>false\<close>
  returned.
\<close>

definition registerFailed :: "'w registry \<Rightarrow> string \<Rightarrow> 'w registry" where
  "registerFailed reg nm = reg\<lparr>rlog := rlog reg @ [(Error, ''Failed to register command'', [nm])]\<rparr>"

definition register ::
  "(command_metadata \<Rightarrow> slash_builder option) \<Rightarrow> 'w registry \<Rightarrow> 'w command_handler \<Rightarrow>
     bool \<times> 'w registry" where
  "register newBuilder reg command =
     (let nm = name (metadata command) in
      if \<not> CommandMetadataSchema (metadata command) then (False, registerFailed reg nm)
      else
        let reg1 =
          (if commands reg nm \<noteq> None then
             reg\<lparr>rlog := rlog reg @ [(Warn, ''Command already registered, overwriting'', [nm])]\<rparr>
           else reg)
        in
        (case (case builder command of
                 Some b \<Rightarrow> Some b
               | None \<Rightarrow> newBuilder (metadata command)) of
           None \<Rightarrow> (False, registerFailed reg1 nm)
         | Some b \<Rightarrow>
             let reg2 =
               reg1\<lparr>commands := (commands reg1)(nm \<mapsto> command\<lparr>builder := Some b\<rparr>),
                    rlog := rlog reg1 @ [(Info, ''Command registered'', [nm])]\<rparr>
             in
             (case aliases (metadata command) of
                None \<Rightarrow> (True, reg2)
              | Some declared \<Rightarrow> (True, registerAliases nm declared reg2))))"

text \<open>
  The aliases a command declares: \<^verbatim>\<open>if (command.metadata.aliases)\<close> guards the loop, so
  a command without the field declares none.
\<close>

definition declaredAliases :: "command_metadata \<Rightarrow> string list" where
  "declaredAliases md = (case aliases md of None \<Rightarrow> [] | Some declared \<Rightarrow> declared)"

text \<open>
  \<^verbatim>\<open>get\<close>: the direct name first, then the alias index. \<^verbatim>\<open>if (realName)\<close> also fails
  on the empty string.
\<close>

definition get :: "'w registry \<Rightarrow> string \<Rightarrow> 'w command_handler option" where
  "get reg nm =
     (case commands reg nm of
        Some h \<Rightarrow> Some h
      | None \<Rightarrow>
          (case aliasIndex reg nm of
             None \<Rightarrow> None
           | Some realName \<Rightarrow> if realName = [] then None else commands reg realName))"

text \<open>
  \<^verbatim>\<open>isOnCooldown\<close>: the remaining milliseconds, 0 when there is no record.
  \<^verbatim>\<open>if (!userCooldown) return 0\<close> also fires on a stored expiry of 0. Both
  \<^verbatim>\<open>isOnCooldown\<close> and \<^verbatim>\<open>setCooldown\<close> take the name the executor passes, which is the
  name the command was invoked under.
\<close>

definition isOnCooldown :: "'w registry \<Rightarrow> string \<Rightarrow> string \<Rightarrow> timestamp \<Rightarrow> int" where
  "isOnCooldown reg cmd userId now =
     (case cooldowns reg cmd of
        None \<Rightarrow> 0
      | Some commandCooldowns \<Rightarrow>
          (case commandCooldowns userId of
             None \<Rightarrow> 0
           | Some userCooldown \<Rightarrow>
               if userCooldown = 0 then 0 else max 0 (userCooldown - now)))"

definition setCooldown ::
  "'w registry \<Rightarrow> string \<Rightarrow> string \<Rightarrow> int \<Rightarrow> timestamp \<Rightarrow> 'w registry" where
  "setCooldown reg cmd userId durationMs now =
     (let commandCooldowns = (case cooldowns reg cmd of None \<Rightarrow> Map.empty | Some cc \<Rightarrow> cc)
      in reg\<lparr>cooldowns := (cooldowns reg)(cmd \<mapsto> commandCooldowns(userId \<mapsto> now + durationMs))\<rparr>)"

section \<open>Command executor\<close>

text \<open>
  The errors \<^verbatim>\<open>executeCommand\<close> throws, one constructor per \<^verbatim>\<open>throw\<close> site (the source
  tells them apart by message only). \<open>OnCooldown\<close> carries the seconds of the message,
  \<open>ParseFailed\<close> and \<open>HandlerFailed\<close> the message of the parser or of the handler.
\<close>

datatype exec_error =
  UnknownCommand string
  | CommandDisabled string
  | OnCooldown int
  | PermissionDenied
  | PremiumRequired
  | ParseFailed string
  | HandlerFailed string

text \<open>
  \<^verbatim>\<open>CommandExecutionResult\<close> without the elapsed time. The error reply that the
  \<^verbatim>\<open>catch\<close> block sends through the transport is outside the model.
\<close>

record execution_result =
  success :: bool
  error :: "exec_error option"
  resultCommand :: string
  resultUser :: string
  resultGuild :: "string option"

definition failure :: "interaction \<Rightarrow> exec_error \<Rightarrow> execution_result" where
  "failure i e =
     \<lparr>success = False, error = Some e, resultCommand = commandName i,
      resultUser = user i, resultGuild = guild i\<rparr>"

definition succeeded :: "interaction \<Rightarrow> execution_result" where
  "succeeded i =
     \<lparr>success = True, error = None, resultCommand = commandName i,
      resultUser = user i, resultGuild = guild i\<rparr>"

text \<open>
  The steps of \<^verbatim>\<open>executeCommand\<close>, in the order of the source text. The model returns
  the list of the steps an invocation went through.
\<close>

datatype step =
  Resolve | CheckEnabled | CheckCooldown | BuildContext | CheckPermission | CheckPremium
  | ParseArguments | Execute | SetCooldown

definition pipeline :: "step list" where
  "pipeline =
     [Resolve, CheckEnabled, CheckCooldown, BuildContext, CheckPermission, CheckPremium,
      ParseArguments, Execute, SetCooldown]"


text \<open>
  The clock readings of one invocation: in \<^verbatim>\<open>isOnCooldown\<close>, in the license validation
  behind \<^verbatim>\<open>hasPremiumAccess\<close>, and in \<^verbatim>\<open>setCooldown\<close> after the handler has returned.
\<close>

record clock =
  atCooldownCheck :: timestamp
  atContext :: timestamp
  atSetCooldown :: timestamp

text \<open>
  \<^verbatim>\<open>createCommandContext\<close>. \<open>ownerIds\<close> is the split \<^verbatim>\<open>OWNER_IDS\<close> of the environment;
  the premium flag is asked for the guild's id, or for the empty id without a guild.
\<close>

definition createCommandContext ::
  "licenses \<Rightarrow> string list \<Rightarrow> timestamp \<Rightarrow> interaction \<Rightarrow> command_context" where
  "createCommandContext ls ownerIds now i =
     \<lparr>ctxInteraction = i,
      ctxGuild = guild i,
      ctxUser = user i,
      isOwner = (user i \<in> set ownerIds),
      ctxMember = imember i,
      ctxPremium = hasPremiumAccess ls now (case guild i of None \<Rightarrow> [] | Some g \<Rightarrow> g),
      ctxArgs = []\<rparr>"

definition hasPermission :: "command_context \<Rightarrow> string \<Rightarrow> bool" where
  "hasPermission ctx permission =
     (case ctxMember ctx of
        None \<Rightarrow> False
      | Some m \<Rightarrow>
          (case memberPermissions m of None \<Rightarrow> False | Some ps \<Rightarrow> permission \<in> set ps))"

definition hasRole :: "command_context \<Rightarrow> string \<Rightarrow> bool" where
  "hasRole ctx roleId =
     (case ctxMember ctx of
        None \<Rightarrow> False
      | Some m \<Rightarrow> (case memberRoles m of None \<Rightarrow> False | Some rs \<Rightarrow> roleId \<in> set rs))"

definition checkPermissions :: "command_context \<Rightarrow> 'w command_handler \<Rightarrow> bool" where
  "checkPermissions ctx handler =
     (let md = metadata handler in
      if ownerOnly md \<and> \<not> isOwner ctx then False
      else if guildOnly md \<and> ctxGuild ctx = None then False
      else if \<not> list_all (hasPermission ctx) (case permissions md of None \<Rightarrow> [] | Some ps \<Rightarrow> ps)
        then False
      else if \<not> list_all (hasRole ctx) (case roles md of None \<Rightarrow> [] | Some rs \<Rightarrow> rs)
        then False
      else True)"

text \<open>
  The parser is the object handed to the executor's constructor: a parameter. It takes
  the interaction and the argument definitions and returns the parsed arguments or the
  message of the error it throws.
\<close>

type_synonym parser = "interaction \<Rightarrow> command_argument list \<Rightarrow> string + parsed_args"

text \<open>
  \<^verbatim>\<open>let parsedArgs = {}; if (handler.metadata.arguments) parsedArgs = parseArguments(...)\<close>:
  the parser runs when the command declares arguments; without them the parsed arguments
  are empty.
\<close>

definition parseIfDefined :: "parser \<Rightarrow> interaction \<Rightarrow> 'w command_handler \<Rightarrow> string + parsed_args" where
  "parseIfDefined parser i handler =
     (case arguments (metadata handler) of
        None \<Rightarrow> Inr []
      | Some defs \<Rightarrow> parser i defs)"

text \<open>
  \<^verbatim>\<open>executeCommand\<close>: the result, the registry afterwards, and the steps gone through.
  Every \<^verbatim>\<open>throw\<close> of the \<^verbatim>\<open>try\<close> block, a throw of the parser and a rejection of the
  awaited handler land in the \<^verbatim>\<open>catch\<close>, which returns the failure.
\<close>

definition executeCommand ::
  "licenses \<Rightarrow> string list \<Rightarrow> parser \<Rightarrow> 'w \<Rightarrow> clock \<Rightarrow> 'w registry \<Rightarrow> interaction \<Rightarrow>
     execution_result \<times> 'w registry \<times> step list" where
  "executeCommand ls ownerIds parser w clk reg i =
     (case get reg (commandName i) of
        None \<Rightarrow> (failure i (UnknownCommand (commandName i)), reg, [Resolve])
      | Some handler \<Rightarrow>
          if \<not> cmdEnabled (metadata handler) then
            (failure i (CommandDisabled (commandName i)), reg, [Resolve, CheckEnabled])
          else
            let cooldownRemaining =
                  isOnCooldown reg (commandName i) (user i) (atCooldownCheck clk);
                done3 = [Resolve, CheckEnabled, CheckCooldown]
            in
            if cooldownRemaining > 0 then
              (failure i (OnCooldown ((cooldownRemaining + 999) div 1000)), reg, done3)
            else
              let ctx = createCommandContext ls ownerIds (atContext clk) i;
                  done5 = done3 @ [BuildContext, CheckPermission]
              in
              if \<not> checkPermissions ctx handler then (failure i PermissionDenied, reg, done5)
              else if premiumOnly (metadata handler) \<and> \<not> ctxPremium ctx then
                (failure i PremiumRequired, reg, done5 @ [CheckPremium])
              else
                (case parseIfDefined parser i handler of
                   Inl e \<Rightarrow>
                     (failure i (ParseFailed e), reg, done5 @ [CheckPremium, ParseArguments])
                 | Inr parsedArgs \<Rightarrow>
                     (case execute handler (ctx\<lparr>ctxArgs := parsedArgs\<rparr>) w of
                        Rejected e \<Rightarrow>
                          (failure i (HandlerFailed e), reg,
                           done5 @ [CheckPremium, ParseArguments, Execute])
                      | Resolved \<Rightarrow>
                          if cooldown (metadata handler) > 0 then
                            (succeeded i,
                             setCooldown reg (commandName i) (user i)
                               (cooldown (metadata handler) * 1000) (atSetCooldown clk),
                             done5 @ [CheckPremium, ParseArguments, Execute, SetCooldown])
                          else
                            (succeeded i, reg,
                             done5 @ [CheckPremium, ParseArguments, Execute]))))"

section \<open>Suggestions\<close>

text \<open>
  \<^verbatim>\<open>String.prototype.toLowerCase\<close> on the letters A to Z; every other character is
  kept.
\<close>

definition lowerChar :: "char \<Rightarrow> char" where
  "lowerChar c =
     (case map_of (zip ''ABCDEFGHIJKLMNOPQRSTUVWXYZ'' ''abcdefghijklmnopqrstuvwxyz'') c of
        None \<Rightarrow> c
      | Some l \<Rightarrow> l)"

definition toLowerCase :: "string \<Rightarrow> string" where
  "toLowerCase s = map lowerChar s"

text \<open>\<^verbatim>\<open>a.includes(b)\<close>: \<open>b\<close> occurs in \<open>a\<close> as a run of consecutive characters.\<close>

definition includes_str :: "string \<Rightarrow> string \<Rightarrow> bool" where
  "includes_str a b = sublist b a"

text \<open>The decimal digits of a number, for \<^verbatim>\<open>choice.value.toString()\<close>.\<close>

fun digits :: "nat \<Rightarrow> string" where
  "digits n =
     (if n < 10 then [''0123456789'' ! n]
      else digits (n div 10) @ [''0123456789'' ! (n mod 10)])"

definition toString :: "choice_value \<Rightarrow> string" where
  "toString v =
     (case v of
        StrValue s \<Rightarrow> s
      | NumValue n \<Rightarrow> if n < 0 then CHR ''-'' # digits (nat (- n)) else digits (nat n))"

text \<open>
  An autocomplete interaction: the command's name, the focused option (name and typed
  value; \<^verbatim>\<open>getFocused\<close> throws when there is none), and how the transport answers a
  \<^verbatim>\<open>respond\<close> call.
\<close>

record autocomplete_interaction =
  acCommandName :: string
  focused :: "(string \<times> string) option"
  respond :: "suggestion list \<Rightarrow> outcome"

definition matches :: "string \<Rightarrow> suggestion \<Rightarrow> bool" where
  "matches focusedValue option =
     (includes_str (toLowerCase (suggestionName option)) (toLowerCase focusedValue) \<or>
      includes_str (toLowerCase (suggestionValue option)) (toLowerCase focusedValue))"

definition choiceSuggestions :: "command_argument \<Rightarrow> suggestion list" where
  "choiceSuggestions argDef =
     (case choices argDef of
        None \<Rightarrow> []
      | Some cs \<Rightarrow>
          map (\<lambda>c. \<lparr>suggestionName = choiceName c, suggestionValue = toString (choiceValue c)\<rparr>) cs)"

text \<open>
  The \<^verbatim>\<open>try\<close> block of \<^verbatim>\<open>handleAutocomplete\<close>: the candidates passed to
  \<^verbatim>\<open>interaction.respond\<close> (none when it returns before responding), and the error that
  leaves the block, if any.
\<close>

definition autocompleteBody ::
  "'w \<Rightarrow> autocomplete_interaction \<Rightarrow> command_argument list \<Rightarrow> 'w supplier option \<Rightarrow>
     suggestion list option \<times> string option" where
  "autocompleteBody w i argumentDefinitions getAutocompleteOptions =
     (case focused i of
        None \<Rightarrow> (None, Some ''No focused option found for autocomplete interaction'')
      | Some (focusedName, focusedValue) \<Rightarrow>
          (case find (\<lambda>arg. argName arg = focusedName) argumentDefinitions of
             None \<Rightarrow> (None, None)
           | Some argDef \<Rightarrow>
               if autocomplete argDef \<noteq> Some True then (None, None)
               else
                 (case (case getAutocompleteOptions of
                          Some supplier \<Rightarrow> supplier focusedName focusedValue w
                        | None \<Rightarrow> Inr (choiceSuggestions argDef)) of
                    Inl e \<Rightarrow> (None, Some e)
                  | Inr opts \<Rightarrow>
                      (let filtered = filter (matches focusedValue) opts;
                           sent = take 25 filtered
                       in (case respond i sent of
                             Rejected e \<Rightarrow> (Some sent, Some e)
                           | Resolved \<Rightarrow> (Some sent, None))))))"

text \<open>
  \<^verbatim>\<open>handleAutocomplete\<close>: how its promise settles, the candidates passed to the
  transport, and the log lines. The \<^verbatim>\<open>catch\<close> logs and does not rethrow.
\<close>

definition handleAutocomplete ::
  "'w \<Rightarrow> autocomplete_interaction \<Rightarrow> command_argument list \<Rightarrow> 'w supplier option \<Rightarrow>
     outcome \<times> suggestion list option \<times> log_entry list" where
  "handleAutocomplete w i argumentDefinitions getAutocompleteOptions =
     (case autocompleteBody w i argumentDefinitions getAutocompleteOptions of
        (sent, Some e) \<Rightarrow> (Resolved, sent, [(Error, ''Autocomplete failed'', [e, acCommandName i])])
      | (None, None) \<Rightarrow> (Resolved, None, [])
      | (Some sent, None) \<Rightarrow>
          (Resolved, Some sent, [(Debug, ''Autocomplete handled'', [acCommandName i])]))"

section \<open>Example data\<close>

text \<open>A premium license for guild \<open>g1\<close> that covers \<open>moderation\<close> and expires at time 100.\<close>

definition demoLicense :: license where
  "demoLicense =
     \<lparr>license_id = ''lic-1'', guildId = ''g1'', ltype = Premium, features = [''moderation''],
      issuedAt = 0, expiresAt = Some 100, revokedAt = None\<rparr>"

definition demoLicenses :: licenses where
  "demoLicenses = snd (registerLicense Map.empty 10 demoLicense)"

text \<open>
  Features over a world that is one boolean: the lifecycle hook \<open>enable\<close> resolves when the
  world says so and rejects otherwise. The premium one has a \<open>messageCreate\<close> handler whose
  promise rejects, the free one a handler whose promise resolves, and the third a
  \<open>messageCreate\<close> handler that is no async function and throws.
\<close>

definition hooks :: "(string \<times> bool event_handler) list" where
  "hooks =
     [(''register'', \<lambda>ctx args w. Returns Resolved),
      (''enable'', \<lambda>ctx args w. Returns (if w then Resolved else Rejected ''enable failed'')),
      (''disable'', \<lambda>ctx args w. Returns Resolved)]"

definition moderationFeature :: "bool feature" where
  "moderationFeature =
     \<lparr>config = \<lparr>key = ''moderation'', isPremium = True\<rparr>,
      methods = map_of
        (hooks @ [(''messageCreate'', \<lambda>ctx args w. Returns (Rejected ''handler failed''))])\<rparr>"

definition welcomeFeature :: "bool feature" where
  "welcomeFeature =
     \<lparr>config = \<lparr>key = ''welcome'', isPremium = False\<rparr>,
      methods = map_of (hooks @ [(''messageCreate'', \<lambda>ctx args w. Returns Resolved)])\<rparr>"

definition throwingFeature :: "bool feature" where
  "throwingFeature =
     \<lparr>config = \<lparr>key = ''audit'', isPremium = False\<rparr>,
      methods = map_of (hooks @ [(''messageCreate'', \<lambda>ctx args w. Throws ''handler threw'')])\<rparr>"

definition demoInstance :: "bool feature \<Rightarrow> bool \<Rightarrow> bool feature_instance" where
  "demoInstance f on =
     \<lparr>feature = f, icontext = \<lparr>ctx_guild = ''g1'', ctx_config = []\<rparr>, enabled = on, loadedAt = 0\<rparr>"

definition throwingLoader :: "bool loader" where
  "throwingLoader =
     \<lparr>instances = [''g1'' \<mapsto> [(''audit'', demoInstance throwingFeature True),
                               (''welcome'', demoInstance welcomeFeature True)]],
      calls = [], flog = []\<rparr>"

definition demoLoader :: "bool \<Rightarrow> bool \<Rightarrow> bool loader" where
  "demoLoader m_on w_on =
     \<lparr>instances = [''g1'' \<mapsto> [(''moderation'', demoInstance moderationFeature m_on),
                               (''welcome'', demoInstance welcomeFeature w_on)]],
      calls = [], flog = []\<rparr>"


text \<open>
  A builder that accepts every metadata, and the \<open>ping\<close> command with a cooldown of 5
  seconds whose handler resolves when the world says so. \<open>demoRegistry\<close> already holds
  an older \<open>ping\<close> and the alias \<open>p\<close> of another command.
\<close>

definition acceptingBuilder :: "command_metadata \<Rightarrow> slash_builder option" where
  "acceptingBuilder md =
     Some \<lparr>builderName = name md, builderDescription = description md,
           builderOptions =
             map (\<lambda>a. (argName a, argDescription a, required a = Some True))
               (case arguments md of None \<Rightarrow> [] | Some defs \<Rightarrow> defs)\<rparr>"

definition pingMetadata :: command_metadata where
  "pingMetadata =
     \<lparr>name = ''ping'', description = ''Replies with Pong!'', category = Some ''utility'',
      permissions = None, roles = None, cooldown = 5, guildOnly = False, ownerOnly = False,
      premiumOnly = False, cmdEnabled = True, aliases = Some [''p'', ''pong''],
      arguments = None\<rparr>"

definition pingCommand :: "bool command_handler" where
  "pingCommand =
     \<lparr>metadata = pingMetadata,
      execute = (\<lambda>ctx w. if w then Resolved else Rejected ''handler failed''),
      builder = None, autocompleteOptions = None\<rparr>"

definition oldPing :: "bool command_handler" where
  "oldPing =
     \<lparr>metadata = pingMetadata\<lparr>description := ''old'', aliases := None, cooldown := 0\<rparr>,
      execute = (\<lambda>ctx w. Rejected ''old handler''),
      builder = acceptingBuilder pingMetadata, autocompleteOptions = None\<rparr>"

definition demoRegistry :: "bool registry" where
  "demoRegistry =
     \<lparr>commands = [''ping'' \<mapsto> oldPing], aliasIndex = [''p'' \<mapsto> ''other''],
      cooldowns = Map.empty, rlog = []\<rparr>"

definition pingRegistry :: "bool registry" where
  "pingRegistry =
     \<lparr>commands = [''ping'' \<mapsto> pingCommand], aliasIndex = [''pong'' \<mapsto> ''ping''],
      cooldowns = Map.empty, rlog = []\<rparr>"

text \<open>
  An invocation of \<open>ping\<close> by user \<open>u1\<close> in a direct message, a parser for commands
  without arguments, and a clock whose handler takes 20 milliseconds.
\<close>

definition pingInteraction :: interaction where
  "pingInteraction =
     \<lparr>commandName = ''ping'', user = ''u1'', guild = None, imember = None, options = []\<rparr>"

definition noArguments :: parser where
  "noArguments i defs = Inr []"

definition clockAt :: "timestamp \<Rightarrow> clock" where
  "clockAt t = \<lparr>atCooldownCheck = t, atContext = t, atSetCooldown = t + 20\<rparr>"











text \<open>
  An argument with three static choices and autocomplete, an interaction focused on it
  with the input \<open>RE\<close>, a suggestion source that fails and one that yields 30 matches.
\<close>

definition colorArgument :: command_argument where
  "colorArgument =
     \<lparr>argName = ''color'', argDescription = ''The color to use'', argType = TString,
      required = Some True,
      choices = Some [\<lparr>choiceName = ''Red'', choiceValue = StrValue ''red''\<rparr>,
                      \<lparr>choiceName = ''Blue'', choiceValue = StrValue ''blue''\<rparr>,
                      \<lparr>choiceName = ''Shade'', choiceValue = NumValue 42\<rparr>],
      minValue = None, maxValue = None, minLength = None, maxLength = None,
      autocomplete = Some True\<rparr>"

definition colorInteraction :: autocomplete_interaction where
  "colorInteraction =
     \<lparr>acCommandName = ''paint'', focused = Some (''color'', ''RE''),
      respond = (\<lambda>sent. Resolved)\<rparr>"

definition failingSupplier :: "bool supplier" where
  "failingSupplier focusedName focusedValue w = Inl ''suggestion source failed''"

definition manySupplier :: "bool supplier" where
  "manySupplier focusedName focusedValue w =
     Inr (replicate 30 \<lparr>suggestionName = ''Red'', suggestionValue = ''red''\<rparr>)"

section \<open>Properties of the license manager\<close>

lemma license_type_cases: "ltype l = Premium \<or> ltype l = Enterprise"
  by (cases "ltype l") simp_all

lemma hasPremiumAccess_iff: "hasPremiumAccess ls now g = (ls g \<noteq> None)"
  using license_type_cases by (auto simp: hasPremiumAccess_def split: option.splits)

lemma valid_iff:
  "valid (validateFeatureAccess ls now g k) =
     (\<exists>l. ls g = Some l \<and> \<not> isExpired l now \<and> \<not> isRevoked l \<and> k \<in> set (features l))"
  by (auto simp: validateFeatureAccess_def split: option.splits)

lemma valid_mono:
  "now \<le> now' \<Longrightarrow> valid (validateFeatureAccess ls now' g k) \<Longrightarrow>
     valid (validateFeatureAccess ls now g k)"
  by (auto simp: valid_iff isExpired_def split: option.splits)

lemma demoLicenses_g1: "demoLicenses ''g1'' = Some demoLicense"
  by (simp add: demoLicenses_def registerLicense_def isExpired_def isRevoked_def demoLicense_def)

lemma demoLicenses_g2: "demoLicenses ''g2'' = None"
  by (simp add: demoLicenses_def registerLicense_def isExpired_def isRevoked_def demoLicense_def)

lemma reasons_distinct:
  "distinct [noLicenseReason, expiredReason, revokedReason, notIncludedReason k]"
  by (simp add: noLicenseReason_def expiredReason_def revokedReason_def notIncludedReason_def)

text \<open>
  Claim C7. The check for (guild, feature key) is not valid exactly when there is no
  license for the guild, or the license's expiry is set and before the clock reading, or
  the license is revoked, or the key is not among its features. A valid result carries
  no reason; each denial carries the reason of the first of the four cases that applies,
  and the four reasons are pairwise different.
\<close>

theorem validateFeatureAccess_denials:
  "(valid (validateFeatureAccess ls now g k) =
      (\<not> (ls g = None \<or>
          (\<exists>l. ls g = Some l \<and>
             ((\<exists>e. expiresAt l = Some e \<and> e < now) \<or> revokedAt l \<noteq> None \<or>
              k \<notin> set (features l)))))) \<and>
   (valid (validateFeatureAccess ls now g k) \<longrightarrow>
      reason (validateFeatureAccess ls now g k) = None) \<and>
   (ls g = None \<longrightarrow> reason (validateFeatureAccess ls now g k) = Some noLicenseReason) \<and>
   (\<forall>l. ls g = Some l \<longrightarrow>
      ((\<exists>e. expiresAt l = Some e \<and> e < now) \<longrightarrow>
         reason (validateFeatureAccess ls now g k) = Some expiredReason) \<and>
      (\<not> (\<exists>e. expiresAt l = Some e \<and> e < now) \<and> revokedAt l \<noteq> None \<longrightarrow>
         reason (validateFeatureAccess ls now g k) = Some revokedReason) \<and>
      (\<not> (\<exists>e. expiresAt l = Some e \<and> e < now) \<and> revokedAt l = None \<and>
       k \<notin> set (features l) \<longrightarrow>
         reason (validateFeatureAccess ls now g k) = Some (notIncludedReason k))) \<and>
   distinct [noLicenseReason, expiredReason, revokedReason, notIncludedReason k]"
proof -
  have v: "valid (validateFeatureAccess ls now g k) =
      (\<not> (ls g = None \<or>
          (\<exists>l. ls g = Some l \<and>
             ((\<exists>e. expiresAt l = Some e \<and> e < now) \<or> revokedAt l \<noteq> None \<or>
              k \<notin> set (features l)))))"
    by (auto simp: validateFeatureAccess_def isExpired_def isRevoked_def split: option.splits)
  have r: "valid (validateFeatureAccess ls now g k) \<longrightarrow>
      reason (validateFeatureAccess ls now g k) = None"
    by (auto simp: validateFeatureAccess_def split: option.splits)
  have n: "ls g = None \<longrightarrow> reason (validateFeatureAccess ls now g k) = Some noLicenseReason"
    by (simp add: validateFeatureAccess_def)
  have s: "\<forall>l. ls g = Some l \<longrightarrow>
      ((\<exists>e. expiresAt l = Some e \<and> e < now) \<longrightarrow>
         reason (validateFeatureAccess ls now g k) = Some expiredReason) \<and>
      (\<not> (\<exists>e. expiresAt l = Some e \<and> e < now) \<and> revokedAt l \<noteq> None \<longrightarrow>
         reason (validateFeatureAccess ls now g k) = Some revokedReason) \<and>
      (\<not> (\<exists>e. expiresAt l = Some e \<and> e < now) \<and> revokedAt l = None \<and>
       k \<notin> set (features l) \<longrightarrow>
         reason (validateFeatureAccess ls now g k) = Some (notIncludedReason k))"
    by (auto simp: validateFeatureAccess_def isExpired_def isRevoked_def split: option.splits)
  from v r n s reasons_distinct show ?thesis by blast
qed

theorem validateFeatureAccess_denials_witness:
  "valid (validateFeatureAccess demoLicenses 200 ''g1'' ''moderation'') = False \<and>
   reason (validateFeatureAccess demoLicenses 200 ''g1'' ''moderation'') = Some expiredReason \<and>
   valid (validateFeatureAccess demoLicenses 50 ''g1'' ''moderation'') = True \<and>
   reason (validateFeatureAccess demoLicenses 50 ''g1'' ''xp'') = Some (notIncludedReason ''xp'') \<and>
   reason (validateFeatureAccess demoLicenses 50 ''g2'' ''moderation'') = Some noLicenseReason"
  using validateFeatureAccess_denials [of demoLicenses 200 "''g1''" "''moderation''"]
    validateFeatureAccess_denials [of demoLicenses 50 "''g1''" "''moderation''"]
    validateFeatureAccess_denials [of demoLicenses 50 "''g1''" "''xp''"]
    validateFeatureAccess_denials [of demoLicenses 50 "''g2''" "''moderation''"]
  by (simp add: demoLicenses_g1 demoLicenses_g2 demoLicense_def)

text \<open>
  Claim C9. A stored license is of type premium or enterprise, the two tiers a license
  can have, and for a guild with a stored license the tier-level check grants premium
  access whatever the license's feature list is; for a guild without a license it
  denies.
\<close>

theorem hasPremiumAccess_by_tier:
  "(\<forall>l. ls g = Some l \<longrightarrow>
      (ltype l = Premium \<or> ltype l = Enterprise) \<and> hasPremiumAccess ls now g \<and>
      (\<forall>fs. hasPremiumAccess (ls(g \<mapsto> l\<lparr>features := fs\<rparr>)) now g)) \<and>
   (ls g = None \<longrightarrow> \<not> hasPremiumAccess ls now g)"
  using license_type_cases by (auto simp: hasPremiumAccess_def)

theorem hasPremiumAccess_by_tier_witness:
  "hasPremiumAccess demoLicenses 50 ''g1'' = True \<and>
   hasPremiumAccess (demoLicenses(''g1'' \<mapsto> demoLicense\<lparr>features := []\<rparr>)) 50 ''g1'' = True \<and>
   hasPremiumAccess demoLicenses 50 ''g2'' = False"
  using hasPremiumAccess_by_tier [of demoLicenses "''g1''" 50]
    hasPremiumAccess_by_tier [of demoLicenses "''g2''" 50]
  by (simp add: demoLicenses_g1 demoLicenses_g2)

text \<open>
  Claim C10. For a guild with a stored license whose expiry is before the clock reading
  or whose revocation time is set, the tier-level check still grants premium access,
  while the per-feature check denies every feature key.
\<close>

theorem hasPremiumAccess_ignores_validity:
  "ls g = Some l \<Longrightarrow> (\<exists>e. expiresAt l = Some e \<and> e < now) \<or> revokedAt l \<noteq> None \<Longrightarrow>
     hasPremiumAccess ls now g \<and> \<not> valid (validateFeatureAccess ls now g k)"
  using license_type_cases [of l]
  by (auto simp: hasPremiumAccess_def validateFeatureAccess_def isExpired_def isRevoked_def)

text \<open>
  The witness: the example license after its expiry, and after \<^verbatim>\<open>revokeLicense\<close> before
  its expiry.
\<close>

theorem hasPremiumAccess_ignores_validity_witness:
  "hasPremiumAccess demoLicenses 200 ''g1'' = True \<and>
   valid (validateFeatureAccess demoLicenses 200 ''g1'' ''moderation'') = False \<and>
   hasPremiumAccess (snd (revokeLicense demoLicenses 20 ''g1'')) 50 ''g1'' = True \<and>
   valid (validateFeatureAccess (snd (revokeLicense demoLicenses 20 ''g1'')) 50 ''g1''
     ''moderation'') = False"
proof -
  have a: "(\<exists>e. expiresAt demoLicense = Some e \<and> e < 200) \<or> revokedAt demoLicense \<noteq> None"
    by (simp add: demoLicense_def)
  have b: "snd (revokeLicense demoLicenses 20 ''g1'') ''g1'' =
      Some (demoLicense\<lparr>revokedAt := Some 20\<rparr>)"
    by (simp add: revokeLicense_def demoLicenses_g1)
  have c: "(\<exists>e. expiresAt (demoLicense\<lparr>revokedAt := Some 20\<rparr>) = Some e \<and> e < 50) \<or>
      revokedAt (demoLicense\<lparr>revokedAt := Some 20\<rparr>) \<noteq> None"
    by simp
  show ?thesis
    using hasPremiumAccess_ignores_validity
        [of demoLicenses "''g1''" demoLicense 200 "''moderation''", OF demoLicenses_g1 a]
      hasPremiumAccess_ignores_validity
        [of "snd (revokeLicense demoLicenses 20 ''g1'')" "''g1''"
          "demoLicense\<lparr>revokedAt := Some 20\<rparr>" 50 "''moderation''", OF b c]
    by simp
qed

section \<open>Properties of the feature loader\<close>

lemma demo_features:
  "config moderationFeature = \<lparr>key = ''moderation'', isPremium = True\<rparr>"
  "config welcomeFeature = \<lparr>key = ''welcome'', isPremium = False\<rparr>"
  "enable moderationFeature ctx w = (if w then Resolved else Rejected ''enable failed'')"
  "enable welcomeFeature ctx w = (if w then Resolved else Rejected ''enable failed'')"
  by (simp_all add: moderationFeature_def welcomeFeature_def enable_def lifecycle_def
      eventHandler_def hooks_def awaited_def)

lemma demo_gi:
  "instances (demoLoader m_on w_on) ''g1'' =
     Some [(''moderation'', demoInstance moderationFeature m_on),
           (''welcome'', demoInstance welcomeFeature w_on)]"
  by (simp add: demoLoader_def)

lemma demo_valid_50: "valid (validateFeatureAccess demoLicenses 50 ''g1'' ''moderation'') = True"
  by (simp add: validateFeatureAccess_def demoLicenses_g1 demoLicense_def isExpired_def
      isRevoked_def)

lemma demo_enable_moderation:
  "enableFeature demoLicenses 50 True (demoLoader False False) ''g1'' ''moderation'' =
     (True, (demoLoader True False)\<lparr>calls := [(''g1'', ''moderation'', ''enable'', Resolved)],
        flog := [(Info, ''Feature enabled for guild'', [''moderation'', ''g1''])]\<rparr>)"
  by (simp add: enableFeature_def demoLoader_def demoInstance_def demo_features
      demo_valid_50)

lemma demo_revoked:
  "valid (validateFeatureAccess (snd (revokeLicense demoLicenses 60 ''g1'')) 70 ''g1''
     ''moderation'') = False"
  by (simp add: validateFeatureAccess_def revokeLicense_def demoLicenses_g1 demoLicense_def
      isExpired_def isRevoked_def)

lemma getFeatureInstance_enable:
  "getFeatureInstance (snd (enableFeature ls now w s g k)) g' k' =
     (if g' = g \<and> k' = k \<and> fst (enableFeature ls now w s g k)
      then map_option (\<lambda>i. i\<lparr>enabled := True\<rparr>) (getFeatureInstance s g k)
      else getFeatureInstance s g' k')"
  by (auto simp: enableFeature_def enableFailed_def getFeatureInstance_def update_conv'
      split: option.splits outcome.splits)

lemma enableFeature_enabled_after:
  "fst (enableFeature ls now w s g k) \<Longrightarrow>
     \<exists>inst. getFeatureInstance (snd (enableFeature ls now w s g k)) g k = Some inst \<and> enabled inst"
  by (auto simp: enableFeature_def enableFailed_def getFeatureInstance_def update_conv'
      split: option.splits outcome.splits if_splits)

lemma enableFeature_noop:
  "getFeatureInstance s g k = Some inst \<Longrightarrow> enabled inst \<Longrightarrow>
     enableFeature ls now w s g k = (True, s)"
  by (auto simp: enableFeature_def getFeatureInstance_def split: option.splits)

lemma enableFeature_calls_le:
  "length (calls (snd (enableFeature ls now w s g k))) \<le> Suc (length (calls s))"
  by (auto simp: enableFeature_def enableFailed_def split: option.splits outcome.splits)

lemma enableFeature_denied_again:
  assumes "now1 \<le> now2"
    and "\<not> fst (enableFeature ls now1 w1 s g k)"
    and "calls (snd (enableFeature ls now1 w1 s g k)) = calls s"
  shows "\<not> fst (enableFeature ls now2 w2 (snd (enableFeature ls now1 w1 s g k)) g k) \<and>
    instances (snd (enableFeature ls now2 w2 (snd (enableFeature ls now1 w1 s g k)) g k)) =
      instances (snd (enableFeature ls now1 w1 s g k)) \<and>
    calls (snd (enableFeature ls now2 w2 (snd (enableFeature ls now1 w1 s g k)) g k)) =
      calls (snd (enableFeature ls now1 w1 s g k))"
proof -
  have first: "instances (snd (enableFeature ls now1 w1 s g k)) = instances s"
    using assms(2,3)
    by (auto simp: enableFeature_def enableFailed_def split: option.splits outcome.splits if_splits)
  show ?thesis
  proof (cases "instances s g")
    case None
    then show ?thesis by (simp add: enableFeature_def enableFailed_def)
  next
    case (Some gi)
    show ?thesis
    proof (cases "map_of gi k")
      case None
      with Some show ?thesis by (simp add: enableFeature_def enableFailed_def)
    next
      case (Some inst)
      note gi = \<open>instances s g = Some gi\<close>
      from assms(2,3) gi Some have off: "\<not> enabled inst"
        by (auto simp: enableFeature_def)
      from assms(2,3) gi Some off
      have denied: "isPremium (config (feature inst)) \<and> \<not> valid (validateFeatureAccess ls now1 g k)"
        by (auto simp: enableFeature_def enableFailed_def split: outcome.splits if_splits)
      with assms(1) have denied2: "\<not> valid (validateFeatureAccess ls now2 g k)"
        using valid_mono by blast
      from gi Some off denied denied2 show ?thesis
        by (simp add: enableFeature_def enableFailed_def)
    qed
  qed
qed

text \<open>
  Claim C3, as the code has it. For a premium feature whose instance exists for the
  guild: an instance that is already enabled makes \<^verbatim>\<open>enableFeature\<close> return true and
  change nothing, without a license check; for an instance that is not enabled,
  \<^verbatim>\<open>enableFeature\<close> returns true exactly when the license check for (guild, feature
  key) is valid at the call and the feature's enable hook resolves; and when the check
  is not valid the hook is not invoked and the instances stay as they were.
\<close>

theorem enableFeature_premium:
  assumes "instances s g = Some guildInstances"
    and "map_of guildInstances k = Some inst"
    and "isPremium (config (feature inst))"
  shows "(enabled inst \<longrightarrow> enableFeature ls now w s g k = (True, s)) \<and>
    (\<not> enabled inst \<longrightarrow>
       fst (enableFeature ls now w s g k) =
         (valid (validateFeatureAccess ls now g k) \<and>
          enable (feature inst) (icontext inst) w = Resolved)) \<and>
    (\<not> enabled inst \<and> \<not> valid (validateFeatureAccess ls now g k) \<longrightarrow>
       calls (snd (enableFeature ls now w s g k)) = calls s \<and>
       instances (snd (enableFeature ls now w s g k)) = instances s)"
  using assms
  by (auto simp: enableFeature_def enableFailed_def split: outcome.splits)

theorem enableFeature_premium_witness:
  "fst (enableFeature demoLicenses 50 True (demoLoader False False) ''g1'' ''moderation'') = True \<and>
   fst (enableFeature demoLicenses 200 True (demoLoader False False) ''g1'' ''moderation'') = False \<and>
   calls (snd (enableFeature demoLicenses 200 True (demoLoader False False) ''g1''
     ''moderation'')) = [] \<and>
   enableFeature demoLicenses 200 True (demoLoader True False) ''g1'' ''moderation'' =
     (True, demoLoader True False)"
proof -
  have m: "map_of [(''moderation'', demoInstance moderationFeature on),
      (''welcome'', demoInstance welcomeFeature False)] ''moderation'' =
      Some (demoInstance moderationFeature on)" for on
    by simp
  have p: "isPremium (config (feature (demoInstance moderationFeature on)))" for on
    by (simp add: demoInstance_def demo_features)
  have v: "valid (validateFeatureAccess demoLicenses 200 ''g1'' ''moderation'') = False"
    by (simp add: validateFeatureAccess_def demoLicenses_g1 demoLicense_def isExpired_def)
  have c: "calls (demoLoader False False) = []"
    by (simp add: demoLoader_def)
  show ?thesis
    using enableFeature_premium [OF demo_gi [of False False] m [of False] p [of False],
        of demoLicenses 50 True]
      enableFeature_premium [OF demo_gi [of False False] m [of False] p [of False],
        of demoLicenses 200 True]
      enableFeature_premium [OF demo_gi [of True False] m [of True] p [of True],
        of demoLicenses 200 True]
    by (simp add: demo_valid_50 v c demoInstance_def demo_features)
qed

text \<open>
  Claim C3 as stated fails in both directions. The feature is enabled under a valid
  license, the license is revoked, and a further \<^verbatim>\<open>enableFeature\<close> returns true
  although the check denies. And with a valid license, \<^verbatim>\<open>enableFeature\<close> returns
  false when the enable hook rejects.
\<close>

theorem enableFeature_iff_granted_counterexample:
  "fst (enableFeature demoLicenses 50 True (demoLoader False False) ''g1'' ''moderation'') = True \<and>
   fst (enableFeature (snd (revokeLicense demoLicenses 60 ''g1'')) 70 True
          (snd (enableFeature demoLicenses 50 True (demoLoader False False) ''g1'' ''moderation''))
          ''g1'' ''moderation'') = True \<and>
   valid (validateFeatureAccess (snd (revokeLicense demoLicenses 60 ''g1'')) 70 ''g1''
     ''moderation'') = False \<and>
   fst (enableFeature demoLicenses 50 False (demoLoader False False) ''g1'' ''moderation'') = False \<and>
   valid (validateFeatureAccess demoLicenses 50 ''g1'' ''moderation'') = True"
  by (simp add: demo_enable_moderation demo_revoked demo_valid_50)
    (simp add: enableFeature_def demoLoader_def demoInstance_def demo_features
      demo_valid_50)

text \<open>
  Claim C4, as the code has it. Two calls in a row, the clock not running backwards
  between them: if the first call returned true, or returned false without invoking the
  enable hook, then the second call returns what the first returned and leaves the
  instances and the hook invocations as the first call left them; the two calls
  together invoke the hook at most once.
\<close>

theorem enableFeature_twice:
  assumes "now1 \<le> now2"
    and "fst (enableFeature ls now1 w1 s g k) \<or>
         calls (snd (enableFeature ls now1 w1 s g k)) = calls s"
  shows "fst (enableFeature ls now2 w2 (snd (enableFeature ls now1 w1 s g k)) g k) =
      fst (enableFeature ls now1 w1 s g k) \<and>
    instances (snd (enableFeature ls now2 w2 (snd (enableFeature ls now1 w1 s g k)) g k)) =
      instances (snd (enableFeature ls now1 w1 s g k)) \<and>
    calls (snd (enableFeature ls now2 w2 (snd (enableFeature ls now1 w1 s g k)) g k)) =
      calls (snd (enableFeature ls now1 w1 s g k)) \<and>
    length (calls (snd (enableFeature ls now2 w2 (snd (enableFeature ls now1 w1 s g k)) g k))) \<le>
      length (calls s) + 1"
proof (cases "fst (enableFeature ls now1 w1 s g k)")
  case True
  then obtain inst where
    "getFeatureInstance (snd (enableFeature ls now1 w1 s g k)) g k = Some inst" "enabled inst"
    using enableFeature_enabled_after [OF True] by auto
  then have "enableFeature ls now2 w2 (snd (enableFeature ls now1 w1 s g k)) g k =
      (True, snd (enableFeature ls now1 w1 s g k))"
    by (rule enableFeature_noop)
  with True show ?thesis
    using enableFeature_calls_le [of ls now1 w1 s g k] by simp
next
  case False
  with assms show ?thesis
    using enableFeature_denied_again [of now1 now2 ls w1 s g k w2] by simp
qed

theorem enableFeature_twice_witness:
  "fst (enableFeature demoLicenses 60 True
          (snd (enableFeature demoLicenses 50 True (demoLoader False False) ''g1'' ''moderation''))
          ''g1'' ''moderation'') = True \<and>
   calls (snd (enableFeature demoLicenses 60 True
          (snd (enableFeature demoLicenses 50 True (demoLoader False False) ''g1'' ''moderation''))
          ''g1'' ''moderation'')) = [(''g1'', ''moderation'', ''enable'', Resolved)]"
proof -
  have le: "(50::int) \<le> 60" by simp
  have first: "fst (enableFeature demoLicenses 50 True (demoLoader False False) ''g1''
      ''moderation'') \<or>
    calls (snd (enableFeature demoLicenses 50 True (demoLoader False False) ''g1''
      ''moderation'')) = calls (demoLoader False False)"
    by (simp add: demo_enable_moderation)
  show ?thesis
    using enableFeature_twice [OF le first, of True]
    by (simp add: demo_enable_moderation)
qed

text \<open>
  Claim C4 as stated fails when the enable hook rejects: the instance stays disabled,
  so the second call invokes the hook again, twice over the two calls, whether the hook
  rejects again or resolves; and when it resolves the second time, the end state after
  two calls (enabled) is not the end state after one (disabled).
\<close>

theorem enableFeature_twice_counterexample:
  "calls (snd (enableFeature demoLicenses 50 False (demoLoader False False) ''g1'' ''welcome'')) =
     [(''g1'', ''welcome'', ''enable'', Rejected ''enable failed'')] \<and>
   calls (snd (enableFeature demoLicenses 60 False
     (snd (enableFeature demoLicenses 50 False (demoLoader False False) ''g1'' ''welcome''))
     ''g1'' ''welcome'')) =
     [(''g1'', ''welcome'', ''enable'', Rejected ''enable failed''),
      (''g1'', ''welcome'', ''enable'', Rejected ''enable failed'')] \<and>
   calls (snd (enableFeature demoLicenses 60 True
     (snd (enableFeature demoLicenses 50 False (demoLoader False False) ''g1'' ''welcome''))
     ''g1'' ''welcome'')) =
     [(''g1'', ''welcome'', ''enable'', Rejected ''enable failed''),
      (''g1'', ''welcome'', ''enable'', Resolved)] \<and>
   map_option enabled (getFeatureInstance
     (snd (enableFeature demoLicenses 50 False (demoLoader False False) ''g1'' ''welcome''))
     ''g1'' ''welcome'') = Some False \<and>
   map_option enabled (getFeatureInstance
     (snd (enableFeature demoLicenses 60 True
       (snd (enableFeature demoLicenses 50 False (demoLoader False False) ''g1'' ''welcome''))
       ''g1'' ''welcome''))
     ''g1'' ''welcome'') = Some True"
proof -
  have first: "enableFeature demoLicenses 50 False (demoLoader False False) ''g1'' ''welcome'' =
      (False, (demoLoader False False)
         \<lparr>calls := [(''g1'', ''welcome'', ''enable'', Rejected ''enable failed'')],
          flog := [(Error, ''Failed to enable feature'', [''enable failed'', ''welcome'', ''g1''])]\<rparr>)"
    by (simp add: enableFeature_def enableFailed_def demoLoader_def demoInstance_def
        demo_features)
  show ?thesis
    unfolding first
    by (simp add: enableFeature_def enableFailed_def demoLoader_def demoInstance_def
        demo_features getFeatureInstance_def)
qed

lemma eventLoop_Cons:
  "eventLoop w g ev args ((k, inst) # rest) =
     (if \<not> enabled inst then eventLoop w g ev args rest
      else
        (case eventHandler (feature inst) ev of
           None \<Rightarrow> eventLoop w g ev args rest
         | Some h \<Rightarrow>
             (case h (icontext inst) args w of
                Throws e \<Rightarrow> (Some e, [], [(g, k, ev, Rejected e)], [])
              | NoPromise \<Rightarrow> (Some notAPromise, [], [(g, k, ev, Resolved)], [])
              | Returns settled \<Rightarrow>
                  (fst (eventLoop w g ev args rest),
                   Resolved # fst (snd (eventLoop w g ev args rest)),
                   (g, k, ev, settled) # fst (snd (snd (eventLoop w g ev args rest))),
                   (case settled of
                      Resolved \<Rightarrow> []
                    | Rejected e \<Rightarrow> [(Error, ''Feature event handler failed'', [e, k, g, ev])]) @
                   snd (snd (snd (eventLoop w g ev args rest)))))))"
  by (simp add: catchLog_def Let_def
      split: prod.splits outcome.splits option.splits invocation.splits)

text \<open>
  What the \<^verbatim>\<open>.catch\<close> on each promise and \<^verbatim>\<open>Promise.allSettled\<close> do achieve: when every
  handler the loop calls returns a promise, no error leaves the loop, every enabled
  instance with a handler for the event is invoked, and every promise collected resolves.
\<close>

lemma eventLoop_promises:
  assumes "\<forall>(k, inst) \<in> set gi. enabled inst \<longrightarrow>
    (\<forall>h. eventHandler (feature inst) ev = Some h \<longrightarrow> (\<exists>p. h (icontext inst) args w = Returns p))"
  shows "fst (eventLoop w g ev args gi) = None \<and>
    set (fst (snd (eventLoop w g ev args gi))) \<subseteq> {Resolved} \<and>
    fst (snd (snd (eventLoop w g ev args gi))) =
      List.map_filter
        (\<lambda>(k, inst). if enabled inst
           then map_option (\<lambda>h. (g, k, ev, awaited (h (icontext inst) args w)))
             (eventHandler (feature inst) ev)
           else None) gi"
  using assms
proof (induction gi)
  case Nil
  then show ?case by simp
next
  case (Cons x gi)
  obtain k inst where x: "x = (k, inst)" by (cases x)
  from Cons.prems have rest: "\<forall>(k, inst) \<in> set gi. enabled inst \<longrightarrow>
    (\<forall>h. eventHandler (feature inst) ev = Some h \<longrightarrow> (\<exists>p. h (icontext inst) args w = Returns p))"
    by simp
  note IH = Cons.IH [OF rest]
  show ?case
  proof (cases "enabled inst")
    case False
    with IH show ?thesis by (simp add: x eventLoop_Cons del: eventLoop.simps(2))
  next
    case True
    show ?thesis
    proof (cases "eventHandler (feature inst) ev")
      case None
      with True IH show ?thesis by (simp add: x eventLoop_Cons del: eventLoop.simps(2))
    next
      case (Some h)
      with Cons.prems True obtain p where p: "h (icontext inst) args w = Returns p"
        by (auto simp: x)
      with True Some IH show ?thesis
        by (simp add: x eventLoop_Cons awaited_def del: eventLoop.simps(2))
    qed
  qed
qed

lemma handleEvent_promises:
  assumes "instances s g = Some gi"
    and "\<forall>(k, inst) \<in> set gi. enabled inst \<longrightarrow>
      (\<forall>h. eventHandler (feature inst) ev = Some h \<longrightarrow> (\<exists>p. h (icontext inst) args w = Returns p))"
  shows "fst (handleEvent w s g ev args) = Resolved \<and>
    calls (snd (handleEvent w s g ev args)) =
      calls s @ List.map_filter
        (\<lambda>(k, inst). if enabled inst
           then map_option (\<lambda>h. (g, k, ev, awaited (h (icontext inst) args w)))
             (eventHandler (feature inst) ev)
           else None) gi"
proof -
  obtain thrown ps cs ls where loop: "eventLoop w g ev args gi = (thrown, ps, cs, ls)"
    by (cases "eventLoop w g ev args gi") auto
  from eventLoop_promises [OF assms(2), of g] loop show ?thesis
    using assms(1) by (simp add: handleEvent_def allSettled_def)
qed

lemma throwing_handlers:
  "eventHandler throwingFeature ''messageCreate'' = Some (\<lambda>ctx args w. Throws ''handler threw'')"
  "eventHandler welcomeFeature ''messageCreate'' = Some (\<lambda>ctx args w. Returns Resolved)"
  "eventHandler moderationFeature ''toString'' = Some (\<lambda>ctx args w. NoPromise)"
  by (simp_all add: eventHandler_def throwingFeature_def welcomeFeature_def moderationFeature_def
      hooks_def objectPrototype_def)

text \<open>
  Claim C5, evaluated on the code where it fails. Guild \<open>g1\<close> has two enabled features
  with a \<open>messageCreate\<close> handler; the handler of the first throws before it returns a
  promise. The promise of \<^verbatim>\<open>handleEvent\<close> rejects with that error, the only invocation made
  is the one that threw, so the handler of the second feature is never called, and
  nothing is logged. And for the event name \<open>toString\<close>, which finds the function every
  object inherits, \<^verbatim>\<open>handleEvent\<close> rejects with a type error at the first enabled feature.
\<close>

theorem handleEvent_throw_escapes:
  "handleEvent True throwingLoader ''g1'' ''messageCreate'' [] =
     (Rejected ''handler threw'',
      throwingLoader\<lparr>calls := [(''g1'', ''audit'', ''messageCreate'', Rejected ''handler threw'')],
        flog := []\<rparr>) \<and>
   map_option enabled (getFeatureInstance throwingLoader ''g1'' ''welcome'') = Some True \<and>
   eventHandler welcomeFeature ''messageCreate'' = Some (\<lambda>ctx args w. Returns Resolved) \<and>
   handleEvent True (demoLoader True True) ''g1'' ''toString'' [] =
     (Rejected notAPromise,
      (demoLoader True True)\<lparr>calls := [(''g1'', ''moderation'', ''toString'', Resolved)],
        flog := []\<rparr>)"
  by (simp add: handleEvent_def throwingLoader_def demoLoader_def demoInstance_def
      throwing_handlers getFeatureInstance_def)

section \<open>Properties of the command registry\<close>

lemma registerAliases_commands [simp]:
  "commands (registerAliases nm declared reg) = commands reg"
  by (induction declared arbitrary: reg) (auto split: option.splits)

lemma registerAliases_cooldowns [simp]:
  "cooldowns (registerAliases nm declared reg) = cooldowns reg"
  by (induction declared arbitrary: reg) (auto split: option.splits)

lemma registerAliases_index:
  "aliasIndex (registerAliases nm declared reg) a =
     (if a \<in> set declared \<and> aliasIndex reg a = None then Some nm else aliasIndex reg a)"
  by (induction declared arbitrary: reg) (auto split: option.splits)

lemma register_result:
  "fst (register newBuilder reg c) =
      (CommandMetadataSchema (metadata c) \<and>
       (builder c \<noteq> None \<or> newBuilder (metadata c) \<noteq> None))"
  by (simp add: register_def registerFailed_def Let_def split: option.splits)

lemma register_commands:
  assumes "fst (register newBuilder reg c)"
  shows "\<exists>b. commands (snd (register newBuilder reg c)) =
    (commands reg)(name (metadata c) \<mapsto> c\<lparr>builder := Some b\<rparr>)"
proof -
  from assms have ok: "CommandMetadataSchema (metadata c)"
    and "builder c \<noteq> None \<or> newBuilder (metadata c) \<noteq> None"
    by (simp_all add: register_result)
  then obtain b where b: "(case builder c of Some b \<Rightarrow> Some b | None \<Rightarrow> newBuilder (metadata c)) = Some b"
    by (cases "builder c") auto
  show ?thesis
    using ok b by (cases "aliases (metadata c)") (auto simp: register_def Let_def)
qed

lemma register_aliasIndex:
  assumes "fst (register newBuilder reg c)"
  shows "aliasIndex (snd (register newBuilder reg c)) a =
     (if a \<in> set (declaredAliases (metadata c)) \<and> aliasIndex reg a = None
      then Some (name (metadata c)) else aliasIndex reg a)"
proof -
  from assms have ok: "CommandMetadataSchema (metadata c)"
    and "builder c \<noteq> None \<or> newBuilder (metadata c) \<noteq> None"
    by (simp_all add: register_result)
  then obtain b where b: "(case builder c of Some b \<Rightarrow> Some b | None \<Rightarrow> newBuilder (metadata c)) = Some b"
    by (cases "builder c") auto
  show ?thesis
    using ok b
    by (cases "aliases (metadata c)")
      (simp_all add: register_def Let_def declaredAliases_def registerAliases_index)
qed

lemma register_failure:
  "\<not> fst (register newBuilder reg c) \<Longrightarrow>
     commands (snd (register newBuilder reg c)) = commands reg \<and>
     aliasIndex (snd (register newBuilder reg c)) = aliasIndex reg \<and>
     cooldowns (snd (register newBuilder reg c)) = cooldowns reg"
  by (simp add: register_def registerFailed_def Let_def split: option.splits if_splits)

lemma pingCommand_valid: "CommandMetadataSchema (metadata pingCommand)"
  by (simp add: CommandMetadataSchema_def pingCommand_def pingMetadata_def)

text \<open>
  Claim C6. \<^verbatim>\<open>register\<close> returns true exactly when the metadata passes the schema and
  a builder is given or can be made; whether the name is already registered plays no
  part. On success the name resolves to the command just registered (its builder
  filled in), every other name to what it resolved to before, and each alias resolves
  as follows: a declared alias that was not indexed now points to the command's name,
  every alias that was indexed keeps its target. A failed registration changes neither
  the commands nor the alias index.
\<close>

theorem register_last_writer_wins:
  "(fst (register newBuilder reg c) =
      (CommandMetadataSchema (metadata c) \<and>
       (builder c \<noteq> None \<or> newBuilder (metadata c) \<noteq> None))) \<and>
   (fst (register newBuilder reg c) \<longrightarrow>
      (\<exists>b. commands (snd (register newBuilder reg c)) (name (metadata c)) =
              Some (c\<lparr>builder := Some b\<rparr>) \<and>
           get (snd (register newBuilder reg c)) (name (metadata c)) =
              Some (c\<lparr>builder := Some b\<rparr>)) \<and>
      (\<forall>n. n \<noteq> name (metadata c) \<longrightarrow>
         commands (snd (register newBuilder reg c)) n = commands reg n) \<and>
      (\<forall>a. aliasIndex (snd (register newBuilder reg c)) a =
         (if a \<in> set (declaredAliases (metadata c)) \<and> aliasIndex reg a = None
          then Some (name (metadata c)) else aliasIndex reg a))) \<and>
   (\<not> fst (register newBuilder reg c) \<longrightarrow>
      commands (snd (register newBuilder reg c)) = commands reg \<and>
      aliasIndex (snd (register newBuilder reg c)) = aliasIndex reg)"
proof (intro conjI impI allI)
  show "fst (register newBuilder reg c) =
      (CommandMetadataSchema (metadata c) \<and>
       (builder c \<noteq> None \<or> newBuilder (metadata c) \<noteq> None))"
    by (rule register_result)
next
  assume ok: "fst (register newBuilder reg c)"
  from register_commands [OF ok] obtain b where
    b: "commands (snd (register newBuilder reg c)) =
      (commands reg)(name (metadata c) \<mapsto> c\<lparr>builder := Some b\<rparr>)" ..
  then show "\<exists>b. commands (snd (register newBuilder reg c)) (name (metadata c)) =
              Some (c\<lparr>builder := Some b\<rparr>) \<and>
           get (snd (register newBuilder reg c)) (name (metadata c)) =
              Some (c\<lparr>builder := Some b\<rparr>)"
    by (auto simp: get_def)
  fix n assume "n \<noteq> name (metadata c)"
  with b show "commands (snd (register newBuilder reg c)) n = commands reg n"
    by simp
next
  fix a assume ok: "fst (register newBuilder reg c)"
  then show "aliasIndex (snd (register newBuilder reg c)) a =
         (if a \<in> set (declaredAliases (metadata c)) \<and> aliasIndex reg a = None
          then Some (name (metadata c)) else aliasIndex reg a)"
    by (rule register_aliasIndex)
next
  assume "\<not> fst (register newBuilder reg c)"
  then show "commands (snd (register newBuilder reg c)) = commands reg"
    and "aliasIndex (snd (register newBuilder reg c)) = aliasIndex reg"
    using register_failure by blast+
qed

text \<open>
  The witness: \<open>ping\<close> is registered over the older \<open>ping\<close>; its alias \<open>p\<close> belongs to
  another command and is skipped, its alias \<open>pong\<close> is indexed.
\<close>

theorem register_last_writer_wins_witness:
  "fst (register acceptingBuilder demoRegistry pingCommand) = True \<and>
   map_option (description \<circ> metadata) (get demoRegistry ''ping'') = Some ''old'' \<and>
   map_option (description \<circ> metadata)
     (get (snd (register acceptingBuilder demoRegistry pingCommand)) ''ping'') =
     Some ''Replies with Pong!'' \<and>
   aliasIndex (snd (register acceptingBuilder demoRegistry pingCommand)) ''p'' = Some ''other'' \<and>
   aliasIndex (snd (register acceptingBuilder demoRegistry pingCommand)) ''pong'' = Some ''ping''"
proof -
  note T = register_last_writer_wins [of acceptingBuilder demoRegistry pingCommand]
  have ok: "fst (register acceptingBuilder demoRegistry pingCommand)"
    using T pingCommand_valid by (simp add: acceptingBuilder_def)
  have md: "metadata pingCommand = pingMetadata" "name pingMetadata = ''ping''"
    "declaredAliases pingMetadata = [''p'', ''pong'']"
    "description pingMetadata = ''Replies with Pong!''"
    by (simp_all add: pingCommand_def pingMetadata_def declaredAliases_def)
  from T ok have A: "\<exists>b. commands (snd (register acceptingBuilder demoRegistry pingCommand)) ''ping'' =
      Some (pingCommand\<lparr>builder := Some b\<rparr>) \<and>
      get (snd (register acceptingBuilder demoRegistry pingCommand)) ''ping'' =
      Some (pingCommand\<lparr>builder := Some b\<rparr>)"
    and B: "\<forall>a. aliasIndex (snd (register acceptingBuilder demoRegistry pingCommand)) a =
         (if a \<in> set [''p'', ''pong''] \<and> aliasIndex demoRegistry a = None
          then Some ''ping'' else aliasIndex demoRegistry a)"
    by (simp_all add: md)
  from A have D: "map_option (description \<circ> metadata)
     (get (snd (register acceptingBuilder demoRegistry pingCommand)) ''ping'') =
     Some ''Replies with Pong!''"
    by (auto simp: md)
  have E: "map_option (description \<circ> metadata) (get demoRegistry ''ping'') = Some ''old''"
    by (simp add: get_def demoRegistry_def oldPing_def)
  show ?thesis
    using ok D E B [rule_format, of "''p''"] B [rule_format, of "''pong''"]
    by (simp add: demoRegistry_def)
qed

section \<open>Properties of the command executor\<close>

lemma exec_unknown:
  "get reg (commandName i) = None \<Longrightarrow>
     executeCommand ls ownerIds parser w clk reg i =
       (failure i (UnknownCommand (commandName i)), reg, [Resolve])"
  by (simp add: executeCommand_def)


lemma exec_cooldown:
  "get reg (commandName i) = Some h \<Longrightarrow> cmdEnabled (metadata h) \<Longrightarrow>
     0 < isOnCooldown reg (commandName i) (user i) (atCooldownCheck clk) \<Longrightarrow>
     executeCommand ls ownerIds parser w clk reg i =
       (failure i (OnCooldown
          ((isOnCooldown reg (commandName i) (user i) (atCooldownCheck clk) + 999) div 1000)),
        reg, [Resolve, CheckEnabled, CheckCooldown])"
  by (simp add: executeCommand_def Let_def)






lemma exec_success_iff:
  "get reg (commandName i) = Some h \<Longrightarrow>
     success (fst (executeCommand ls ownerIds parser w clk reg i)) =
       (cmdEnabled (metadata h) \<and>
        \<not> 0 < isOnCooldown reg (commandName i) (user i) (atCooldownCheck clk) \<and>
        checkPermissions (createCommandContext ls ownerIds (atContext clk) i) h \<and>
        \<not> (premiumOnly (metadata h) \<and>
           \<not> ctxPremium (createCommandContext ls ownerIds (atContext clk) i)) \<and>
        (\<exists>parsedArgs. parseIfDefined parser i h = Inr parsedArgs \<and>
           execute h ((createCommandContext ls ownerIds (atContext clk) i)
             \<lparr>ctxArgs := parsedArgs\<rparr>) w = Resolved))"
  by (auto simp: executeCommand_def Let_def failure_def succeeded_def
      split: sum.splits outcome.splits)

lemma exec_success_registry:
  "get reg (commandName i) = Some h \<Longrightarrow>
     success (fst (executeCommand ls ownerIds parser w clk reg i)) \<Longrightarrow>
     fst (snd (executeCommand ls ownerIds parser w clk reg i)) =
       (if 0 < cooldown (metadata h)
        then setCooldown reg (commandName i) (user i) (cooldown (metadata h) * 1000)
               (atSetCooldown clk)
        else reg)"
  by (auto simp: executeCommand_def Let_def failure_def succeeded_def
      split: sum.splits outcome.splits if_splits)

lemma get_setCooldown [simp]: "get (setCooldown reg c u d t) nm = get reg nm"
  by (simp add: get_def setCooldown_def Let_def split: option.splits)

lemma isOnCooldown_setCooldown:
  "isOnCooldown (setCooldown reg c u d t) c u now =
     (if t + d = 0 then 0 else max 0 (t + d - now))"
  by (simp add: isOnCooldown_def setCooldown_def Let_def)

lemma cooldowns_setCooldown:
  "\<exists>cc. cooldowns (setCooldown reg c u d t) c = Some cc \<and> cc u = Some (t + d)"
  by (simp add: setCooldown_def Let_def)

lemma createCommandContext_time:
  "createCommandContext ls ownerIds t i = createCommandContext ls ownerIds t' i"
  by (simp add: createCommandContext_def hasPremiumAccess_iff)


















lemma isOnCooldown_setCooldown_other:
  "(c', u') \<noteq> (c, u) \<Longrightarrow>
     isOnCooldown (setCooldown reg c u d t) c' u' now = isOnCooldown reg c' u' now"
  by (auto simp: isOnCooldown_def setCooldown_def Let_def split: option.splits)

text \<open>
  What the cooldown check does achieve, under one invoked name. A successful invocation
  of a command with a cooldown of more than 0 seconds, its clock at or after the epoch,
  writes the expiry (the clock reading in \<^verbatim>\<open>setCooldown\<close> plus 1000 times the seconds)
  under the invoked name and the user, and touches no other record. Every invocation
  under that same name by that user whose cooldown check reads a time strictly before
  the expiry fails at the cooldown step, with the remaining time strictly positive. An
  invocation whose check reads the expiry or later sees no remaining time and succeeds
  exactly when the handler resolves.
\<close>

lemma cooldown_same_name:
  assumes run: "executeCommand ls ownerIds parser w clk reg i = (res, reg', steps)"
    and ok: "success res"
    and h: "get reg (commandName i) = Some h"
    and d: "0 < cooldown (metadata h)"
    and epoch: "0 \<le> atSetCooldown clk"
    and expiry: "expiry = atSetCooldown clk + cooldown (metadata h) * 1000"
  shows "(\<exists>cc. cooldowns reg' (commandName i) = Some cc \<and> cc (user i) = Some expiry) \<and>
    (\<forall>c u now. (c, u) \<noteq> (commandName i, user i) \<longrightarrow>
       isOnCooldown reg' c u now = isOnCooldown reg c u now) \<and>
    (\<forall>ls2 ownerIds2 parser2 w2 clk2 i2.
       commandName i2 = commandName i \<and> user i2 = user i \<and> atCooldownCheck clk2 < expiry \<longrightarrow>
         isOnCooldown reg' (commandName i) (user i) (atCooldownCheck clk2) =
           expiry - atCooldownCheck clk2 \<and>
         0 < isOnCooldown reg' (commandName i) (user i) (atCooldownCheck clk2) \<and>
         executeCommand ls2 ownerIds2 parser2 w2 clk2 reg' i2 =
           (failure i2 (OnCooldown ((expiry - atCooldownCheck clk2 + 999) div 1000)), reg',
            [Resolve, CheckEnabled, CheckCooldown]) \<and>
         0 < (expiry - atCooldownCheck clk2 + 999) div 1000) \<and>
    (\<forall>w2 clk2. expiry \<le> atCooldownCheck clk2 \<longrightarrow>
       isOnCooldown reg' (commandName i) (user i) (atCooldownCheck clk2) = 0 \<and>
       (\<forall>n. error (fst (executeCommand ls ownerIds parser w2 clk2 reg' i)) \<noteq>
          Some (OnCooldown n)) \<and>
       (\<forall>parsedArgs. parseIfDefined parser i h = Inr parsedArgs \<longrightarrow>
          success (fst (executeCommand ls ownerIds parser w2 clk2 reg' i)) =
            (execute h ((createCommandContext ls ownerIds (atContext clk2) i)
               \<lparr>ctxArgs := parsedArgs\<rparr>) w2 = Resolved)))"
proof -
  let ?ctx = "createCommandContext ls ownerIds (atContext clk) i"
  from run ok have ok1: "success (fst (executeCommand ls ownerIds parser w clk reg i))"
    by simp
  from exec_success_registry [OF h ok1] run d
  have reg': "reg' = setCooldown reg (commandName i) (user i) (cooldown (metadata h) * 1000)
      (atSetCooldown clk)"
    by simp
  from exec_success_iff [OF h, of ls ownerIds parser w clk] ok1
  have en: "cmdEnabled (metadata h)"
    and perm: "checkPermissions ?ctx h"
    and prem: "\<not> (premiumOnly (metadata h) \<and> \<not> ctxPremium ?ctx)"
    by simp_all
  from d epoch expiry have pos: "0 < expiry"
    by simp
  have h': "get reg' nm = get reg nm" for nm
    by (simp add: reg')
  have remaining: "isOnCooldown reg' (commandName i) (user i) now = max 0 (expiry - now)" for now
    using pos by (simp add: reg' isOnCooldown_setCooldown expiry)
  have written: "\<exists>cc. cooldowns reg' (commandName i) = Some cc \<and> cc (user i) = Some expiry"
    unfolding reg' expiry by (rule cooldowns_setCooldown)
  have before: "isOnCooldown reg' (commandName i) (user i) (atCooldownCheck clk2) =
           expiry - atCooldownCheck clk2 \<and>
         0 < isOnCooldown reg' (commandName i) (user i) (atCooldownCheck clk2) \<and>
         executeCommand ls2 ownerIds2 parser2 w2 clk2 reg' i2 =
           (failure i2 (OnCooldown ((expiry - atCooldownCheck clk2 + 999) div 1000)), reg',
            [Resolve, CheckEnabled, CheckCooldown]) \<and>
         0 < (expiry - atCooldownCheck clk2 + 999) div 1000"
    if "commandName i2 = commandName i \<and> user i2 = user i \<and> atCooldownCheck clk2 < expiry"
    for ls2 ownerIds2 parser2 w2 clk2 and i2 :: interaction
  proof -
    from that have same: "commandName i2 = commandName i" "user i2 = user i"
      and lt: "atCooldownCheck clk2 < expiry"
      by simp_all
    from lt have r: "isOnCooldown reg' (commandName i) (user i) (atCooldownCheck clk2) =
        expiry - atCooldownCheck clk2"
      by (simp add: remaining)
    with lt have p: "0 < isOnCooldown reg' (commandName i2) (user i2) (atCooldownCheck clk2)"
      by (simp add: same)
    from h have g2: "get reg' (commandName i2) = Some h"
      by (simp add: h' same)
    from exec_cooldown [OF g2 en p, of ls2 ownerIds2 parser2 w2] r lt
    show ?thesis by (simp add: same)
  qed
  have after: "isOnCooldown reg' (commandName i) (user i) (atCooldownCheck clk2) = 0 \<and>
       (\<forall>n. error (fst (executeCommand ls ownerIds parser w2 clk2 reg' i)) \<noteq>
          Some (OnCooldown n)) \<and>
       (\<forall>parsedArgs. parseIfDefined parser i h = Inr parsedArgs \<longrightarrow>
          success (fst (executeCommand ls ownerIds parser w2 clk2 reg' i)) =
            (execute h ((createCommandContext ls ownerIds (atContext clk2) i)
               \<lparr>ctxArgs := parsedArgs\<rparr>) w2 = Resolved))"
    if ge: "expiry \<le> atCooldownCheck clk2" for w2 clk2
  proof -
    from ge have z: "isOnCooldown reg' (commandName i) (user i) (atCooldownCheck clk2) = 0"
      by (simp add: remaining)
    from h have g2: "get reg' (commandName i) = Some h"
      by (simp add: h')
    have ctx: "createCommandContext ls ownerIds (atContext clk2) i = ?ctx"
      by (rule createCommandContext_time)
    have no: "error (fst (executeCommand ls ownerIds parser w2 clk2 reg' i)) \<noteq>
        Some (OnCooldown n)" for n
      using g2 z
      by (auto simp: executeCommand_def Let_def failure_def succeeded_def
          split: sum.splits outcome.splits)
    have again: "success (fst (executeCommand ls ownerIds parser w2 clk2 reg' i)) =
        (execute h ((createCommandContext ls ownerIds (atContext clk2) i)
           \<lparr>ctxArgs := parsedArgs\<rparr>) w2 = Resolved)"
      if "parseIfDefined parser i h = Inr parsedArgs" for parsedArgs
      using exec_success_iff [OF g2, of ls ownerIds parser w2 clk2] z en perm prem that
      by (simp add: ctx)
    from z no again show ?thesis by blast
  qed
  have others: "isOnCooldown reg' c u now = isOnCooldown reg c u now"
    if "(c, u) \<noteq> (commandName i, user i)" for c u now
    using that unfolding reg' by (rule isOnCooldown_setCooldown_other)
  from written others before after show ?thesis by blast
qed

text \<open>
  Claim C2, evaluated on the code where it fails. The command \<open>ping\<close> has a cooldown of 5
  seconds and the alias \<open>pong\<close>; both names resolve to it. User \<open>u1\<close> invokes it as \<open>pong\<close>
  at time 1000 and succeeds: the record is written under \<open>pong\<close>, with the expiry 6020. The
  same user invokes the same command as \<open>ping\<close> at time 3000, inside the window: the
  cooldown check finds nothing under \<open>ping\<close>, and the invocation succeeds.
\<close>

theorem cooldown_alias_bypass:
  "get pingRegistry ''pong'' = Some pingCommand \<and>
   get pingRegistry ''ping'' = Some pingCommand \<and>
   cooldown (metadata pingCommand) = 5 \<and>
   executeCommand demoLicenses [] noArguments True (clockAt 1000) pingRegistry
     (pingInteraction\<lparr>commandName := ''pong''\<rparr>) =
     (succeeded (pingInteraction\<lparr>commandName := ''pong''\<rparr>),
      setCooldown pingRegistry ''pong'' ''u1'' 5000 1020, pipeline) \<and>
   isOnCooldown (setCooldown pingRegistry ''pong'' ''u1'' 5000 1020) ''pong'' ''u1'' 3000 = 3020 \<and>
   isOnCooldown (setCooldown pingRegistry ''pong'' ''u1'' 5000 1020) ''ping'' ''u1'' 3000 = 0 \<and>
   success (fst (executeCommand demoLicenses [] noArguments True (clockAt 3000)
     (setCooldown pingRegistry ''pong'' ''u1'' 5000 1020) pingInteraction)) = True"
proof -
  let ?pong = "pingInteraction\<lparr>commandName := ''pong''\<rparr>"
  let ?reg = "setCooldown pingRegistry ''pong'' ''u1'' 5000 1020"
  have n: "commandName ?pong = ''pong''" "user ?pong = ''u1''"
    "commandName pingInteraction = ''ping''" "user pingInteraction = ''u1''"
    by (simp_all add: pingInteraction_def)
  have g: "get pingRegistry ''pong'' = Some pingCommand" "get pingRegistry ''ping'' = Some pingCommand"
    by (simp_all add: get_def pingRegistry_def)
  have m: "cmdEnabled (metadata pingCommand)" "\<not> premiumOnly (metadata pingCommand)"
    "cooldown (metadata pingCommand) = 5"
    "parseIfDefined noArguments i pingCommand = Inr []"
    "execute pingCommand ctx True = Resolved" for i ctx
    by (simp_all add: pingCommand_def pingMetadata_def parseIfDefined_def)
  have p: "checkPermissions ctx pingCommand" for ctx
    by (simp add: checkPermissions_def pingCommand_def pingMetadata_def)
  have c0: "isOnCooldown pingRegistry c ''u1'' t = 0" for c t
    by (simp add: isOnCooldown_def pingRegistry_def)
  have c1: "isOnCooldown ?reg ''pong'' ''u1'' 3000 = 3020"
    by (simp add: isOnCooldown_setCooldown)
  have c2: "isOnCooldown ?reg ''ping'' ''u1'' 3000 = 0"
    by (simp add: isOnCooldown_setCooldown_other c0)
  have first: "executeCommand demoLicenses [] noArguments True (clockAt 1000) pingRegistry ?pong =
      (succeeded ?pong, ?reg, pipeline)"
    by (simp add: executeCommand_def n g c0 p m clockAt_def pipeline_def)
  have second: "success (fst (executeCommand demoLicenses [] noArguments True (clockAt 3000)
      ?reg pingInteraction)) = True"
    by (simp add: executeCommand_def n g c2 p m clockAt_def succeeded_def)
  from g m(3) first c1 c2 second show ?thesis by simp
qed

section \<open>Properties of the suggestions\<close>

lemma autocompleteBody_sent:
  "fst (autocompleteBody w i defs supplier) = Some sent \<Longrightarrow>
     length sent \<le> 25 \<and>
     (\<exists>focusedName focusedValue. focused i = Some (focusedName, focusedValue) \<and>
        (\<forall>option \<in> set sent. matches focusedValue option))"
  by (auto simp: autocompleteBody_def Let_def
      split: option.splits sum.splits outcome.splits if_splits prod.splits
      dest: in_set_takeD)

lemma handleAutocomplete_outcome: "fst (handleAutocomplete w i defs supplier) = Resolved"
  by (simp add: handleAutocomplete_def split: prod.splits option.splits)

lemma handleAutocomplete_sent:
  "fst (snd (handleAutocomplete w i defs supplier)) = fst (autocompleteBody w i defs supplier)"
  by (simp add: handleAutocomplete_def split: prod.splits option.splits)

lemma handleAutocomplete_logged:
  "snd (autocompleteBody w i defs supplier) = Some e \<Longrightarrow>
     snd (snd (handleAutocomplete w i defs supplier)) =
       [(Error, ''Autocomplete failed'', [e, acCommandName i])]"
  by (cases "autocompleteBody w i defs supplier")
    (auto simp: handleAutocomplete_def split: option.splits)

text \<open>
  Claim C8. The promise of \<^verbatim>\<open>handleAutocomplete\<close> resolves for every input. When
  candidates are passed to the transport, they are at most 25 and each contains the
  lower-cased focused input in its lower-cased name or value. An error that leaves the
  \<^verbatim>\<open>try\<close> block (no focused option, a failing suggestion source, a failing transport)
  is logged and goes no further.
\<close>

theorem handleAutocomplete_bounded:
  "fst (handleAutocomplete w i defs supplier) = Resolved \<and>
   (\<forall>sent. fst (snd (handleAutocomplete w i defs supplier)) = Some sent \<longrightarrow>
      length sent \<le> 25 \<and>
      (\<exists>focusedName focusedValue. focused i = Some (focusedName, focusedValue) \<and>
         (\<forall>option \<in> set sent.
            sublist (toLowerCase focusedValue) (toLowerCase (suggestionName option)) \<or>
            sublist (toLowerCase focusedValue) (toLowerCase (suggestionValue option))))) \<and>
   (\<forall>e. snd (autocompleteBody w i defs supplier) = Some e \<longrightarrow>
      snd (snd (handleAutocomplete w i defs supplier)) =
        [(Error, ''Autocomplete failed'', [e, acCommandName i])])"
  using autocompleteBody_sent [of w i defs supplier] handleAutocomplete_logged [of w i defs supplier]
  by (simp add: handleAutocomplete_outcome handleAutocomplete_sent matches_def includes_str_def)

lemma lower_RE: "toLowerCase ''RE'' = ''re''"
  by (simp add: toLowerCase_def lowerChar_def)

lemma lower_names:
  "toLowerCase ''Red'' = ''red''" "toLowerCase ''red'' = ''red''"
  "toLowerCase ''Blue'' = ''blue''" "toLowerCase ''blue'' = ''blue''"
  "toLowerCase ''Shade'' = ''shade''" "toLowerCase ''42'' = ''42''"
  by (simp_all add: toLowerCase_def lowerChar_def)

lemma shade_value: "toString (NumValue 42) = ''42''"
  by (simp add: toString_def)

lemma re_matches:
  "sublist ''re'' ''red''" "\<not> sublist ''re'' ''blue''" "\<not> sublist ''re'' ''shade''"
  "\<not> sublist ''re'' ''42''"
  by (simp_all add: sublist_Cons_right prefix_Cons)

lemma color_found:
  "argName colorArgument = ''color''"
  "autocomplete colorArgument = Some True"
  "choiceSuggestions colorArgument =
     [\<lparr>suggestionName = ''Red'', suggestionValue = ''red''\<rparr>,
      \<lparr>suggestionName = ''Blue'', suggestionValue = ''blue''\<rparr>,
      \<lparr>suggestionName = ''Shade'', suggestionValue = ''42''\<rparr>]"
  by (simp_all add: colorArgument_def choiceSuggestions_def shade_value toString_def)

lemma color_matches:
  "matches ''RE'' \<lparr>suggestionName = ''Red'', suggestionValue = ''red''\<rparr>"
  "\<not> matches ''RE'' \<lparr>suggestionName = ''Blue'', suggestionValue = ''blue''\<rparr>"
  "\<not> matches ''RE'' \<lparr>suggestionName = ''Shade'', suggestionValue = ''42''\<rparr>"
  by (simp_all add: matches_def includes_str_def lower_RE lower_names re_matches)

lemma color_focused:
  "focused colorInteraction = Some (''color'', ''RE'')"
  "acCommandName colorInteraction = ''paint''"
  "respond colorInteraction sent = Resolved"
  by (simp_all add: colorInteraction_def)

lemma color_body:
  "autocompleteBody w colorInteraction [colorArgument] None =
     (Some [\<lparr>suggestionName = ''Red'', suggestionValue = ''red''\<rparr>], None)"
  by (simp add: autocompleteBody_def color_focused color_found color_matches)

lemma many_body:
  "autocompleteBody w colorInteraction [colorArgument] (Some manySupplier) =
     (Some (replicate 25 \<lparr>suggestionName = ''Red'', suggestionValue = ''red''\<rparr>), None)"
  by (simp add: autocompleteBody_def color_focused color_found color_matches
      manySupplier_def)

lemma failing_body:
  "autocompleteBody w colorInteraction [colorArgument] (Some failingSupplier) =
     (None, Some ''suggestion source failed'')"
  by (simp add: autocompleteBody_def color_focused color_found failingSupplier_def)

text \<open>
  The witness: of the three static choices only \<open>Red\<close> contains \<open>re\<close>; 30 matches
  from a suggestion source are cut to 25; a failing source gives no response, one log
  line and a resolved promise.
\<close>

theorem handleAutocomplete_bounded_witness:
  "fst (handleAutocomplete True colorInteraction [colorArgument] None) = Resolved \<and>
   fst (snd (handleAutocomplete True colorInteraction [colorArgument] None)) =
     Some [\<lparr>suggestionName = ''Red'', suggestionValue = ''red''\<rparr>] \<and>
   map_option length
     (fst (snd (handleAutocomplete True colorInteraction [colorArgument] (Some manySupplier)))) =
     Some 25 \<and>
   handleAutocomplete True colorInteraction [colorArgument] (Some failingSupplier) =
     (Resolved, None, [(Error, ''Autocomplete failed'', [''suggestion source failed'', ''paint''])])"
proof -
  note A = handleAutocomplete_bounded [of True colorInteraction "[colorArgument]" None]
  note B = handleAutocomplete_bounded [of True colorInteraction "[colorArgument]"
      "Some failingSupplier"]
  have 1: "fst (handleAutocomplete True colorInteraction [colorArgument] None) = Resolved"
    using A by simp
  have 2: "fst (snd (handleAutocomplete True colorInteraction [colorArgument] None)) =
     Some [\<lparr>suggestionName = ''Red'', suggestionValue = ''red''\<rparr>]"
    by (simp add: handleAutocomplete_def color_body)
  have 3: "map_option length
     (fst (snd (handleAutocomplete True colorInteraction [colorArgument] (Some manySupplier)))) =
     Some 25"
    by (simp add: handleAutocomplete_def many_body)
  have 4: "fst (snd (handleAutocomplete True colorInteraction [colorArgument]
      (Some failingSupplier))) = None"
    by (simp add: handleAutocomplete_def failing_body)
  from B have 5: "fst (handleAutocomplete True colorInteraction [colorArgument]
      (Some failingSupplier)) = Resolved"
    and 6: "snd (snd (handleAutocomplete True colorInteraction [colorArgument]
      (Some failingSupplier))) =
      [(Error, ''Autocomplete failed'', [''suggestion source failed'', ''paint''])]"
    by (simp_all add: failing_body color_focused)
  from 4 5 6 have 7: "handleAutocomplete True colorInteraction [colorArgument]
      (Some failingSupplier) =
     (Resolved, None, [(Error, ''Autocomplete failed'', [''suggestion source failed'', ''paint''])])"
    by (metis prod.collapse)
  from 1 2 3 7 show ?thesis by simp
qed

end
